theory Spec2Isabelle
  imports Main "HOL-Library.Word"
begin

unbundle bit_operations_syntax

chapter \<open>The decoder\<close>

text \<open>
  A shallow embedding of the HGP model decoder: the bulk-buffer decoder of \<^verbatim>\<open>hgp.cpp\<close>
  (\<^verbatim>\<open>HGPModel::HGPModel\<close> and \<^verbatim>\<open>HGPModel::processMesh\<close>) and the streaming mesh walker
  \<^verbatim>\<open>Mortar::LSW::processMesh\<close> with its two record readers. Pointers into the loaded file
  are byte indices into the buffer, mutation is state passing, and what the C++ program leaves
  undefined (a read outside the buffer, an index outside a vector, a null stream) is an
  explicit outcome of the run.
\<close>

section \<open>Machine integers and raw bytes\<close>

text \<open>
  The container is a byte array. Fixed-width fields are little-endian: the bulk decoder reads
  them through struct pointers on a little-endian host, the streaming decoder through typed
  reads.
\<close>

type_synonym byte = "8 word"
type_synonym u16 = "16 word"
type_synonym u32 = "32 word"

definition le16 :: "byte \<Rightarrow> byte \<Rightarrow> u16" where
  "le16 b0 b1 = ucast b0 OR push_bit 8 (ucast b1)"

definition le32 :: "byte \<Rightarrow> byte \<Rightarrow> byte \<Rightarrow> byte \<Rightarrow> u32" where
  "le32 b0 b1 b2 b3 =
     ucast b0 OR push_bit 8 (ucast b1) OR push_bit 16 (ucast b2) OR push_bit 24 (ucast b3)"

section \<open>Outcomes of a run\<close>

text \<open>
  A run returns a value (\<open>Inr\<close>) or ends in one of these outcomes (\<open>Inl\<close>):
  \<^item> \<open>ReadOutsideBuffer\<close>: the bulk decoder dereferences a pointer outside the loaded buffer.
    The code has no bounds check; in C++ the behaviour of such a read is undefined.
  \<^item> \<open>IndexOutsideVector\<close>: \<^verbatim>\<open>operator[]\<close> of a \<^verbatim>\<open>std::vector\<close> with an index outside the
    vector, again undefined behaviour.
  \<^item> \<open>NullPointer\<close>: a null \<^verbatim>\<open>FILE *\<close> or a null buffer handed to the C library.
  \<^item> \<open>StreamBounds\<close>: the bounds error of a typed stream read past the end of the stream.
  \<^item> \<open>OutOfFuel\<close>: the mesh and chunk loops follow \<^verbatim>\<open>next_offset\<close> links and need not end
    (a chain may lead back into itself). Each loop takes a bound on its iterations; a run that
    has not returned within the bound ends here.
  \<open>ebind\<close> sequences two steps and stops at the first such outcome.
\<close>

datatype error =
    ReadOutsideBuffer
  | IndexOutsideVector
  | NullPointer
  | StreamBounds
  | OutOfFuel

definition ebind :: "error + 'a \<Rightarrow> ('a \<Rightarrow> error + 'b) \<Rightarrow> error + 'b" where
  "ebind m f = (case m of Inl e \<Rightarrow> Inl e | Inr x \<Rightarrow> f x)"

section \<open>The output model\<close>

text \<open>
  \<^verbatim>\<open>Model::VertexBuffer\<close>, \<^verbatim>\<open>Model::Chunk\<close> and \<^verbatim>\<open>Model::Material\<close> are declared in
  \<^verbatim>\<open>model.hpp\<close>, which is not among the sources; the records have the fields the decoder
  assigns, with the values as the decoder reads them. A chunk's \<open>vertex_buffer_idx\<close> is the
  \<^verbatim>\<open>int\<close> the walkers compute; colours are the bit patterns of the stored floats. The matrix
  type (\<^verbatim>\<open>Matrix\<close>, \<^verbatim>\<open>glm::mat4\<close>) is the type parameter \<open>'m\<close>, the texture type \<open>'t\<close>.
\<close>

record VertexBuffer =
  vb_size :: u32
  vb_data :: "byte list"
  stride :: int

record 'm Chunk =
  vertex_buffer_idx :: int
  material_idx :: u32
  primitive_type :: u32
  num_elements :: u16
  transformation :: 'm
  element_buffer :: "u16 list"

record Material =
  red :: u32
  green :: u32
  blue :: u32
  alpha :: u32
  texture_idx :: int

record ('m, 't) Model =
  m_textures :: "'t list"
  m_materials :: "Material list"
  m_chunks :: "'m Chunk list"
  m_vertexBuffers :: "VertexBuffer list"

text \<open>
  Modelled from the spec: \<^verbatim>\<open>Model::addChunk\<close>, \<^verbatim>\<open>setTextures\<close>, \<^verbatim>\<open>setMaterials\<close> and
  \<^verbatim>\<open>setVertexBuffers\<close> are defined in \<^verbatim>\<open>model.cpp\<close>, not among the sources. The walker
  "appends to the Model's chunk list"; the Model "owns the final vertex-buffer array, the
  flattened chunk list, the material array, and the texture array".
\<close>

definition addChunk :: "'m Chunk list \<Rightarrow> 'm Chunk \<Rightarrow> 'm Chunk list" where
  "addChunk cs chunk = cs @ [chunk]"

definition setTextures :: "('m, 't) Model \<Rightarrow> 't list \<Rightarrow> ('m, 't) Model" where
  "setTextures model txs = model\<lparr> m_textures := txs \<rparr>"

definition setMaterials :: "('m, 't) Model \<Rightarrow> Material list \<Rightarrow> ('m, 't) Model" where
  "setMaterials model mats = model\<lparr> m_materials := mats \<rparr>"

definition setVertexBuffers :: "('m, 't) Model \<Rightarrow> VertexBuffer list \<Rightarrow> ('m, 't) Model" where
  "setVertexBuffers model vbs = model\<lparr> m_vertexBuffers := vbs \<rparr>"

declare addChunk_def [simp] setTextures_def [simp] setMaterials_def [simp]
  setVertexBuffers_def [simp]

text \<open>
  What the program prints on stderr: \<^verbatim>\<open>"Unknown vertex type %d"\<close> of the mesh walkers and the
  \<^verbatim>\<open>strerror\<close> text of the constructor. The state a mesh walker works on is the Model's chunk
  list (through \<^verbatim>\<open>addChunk\<close>), the caller's \<^verbatim>\<open>vertexBuffers\<close> vector, passed by reference,
  and stderr.
\<close>

datatype diagnostic = UnknownVertexType u32 | ErrnoText string

record 'm walker_state =
  model_chunks :: "'m Chunk list"
  vertexBuffers :: "VertexBuffer list"
  stderr_log :: "diagnostic list"

section \<open>Reading the loaded buffer\<close>


definition OFFSET :: "nat \<Rightarrow> u32 \<Rightarrow> nat" where
  "OFFSET body off = body + unat off"


definition ld_s8 :: "byte list \<Rightarrow> nat \<Rightarrow> error + 8 word" where
  "ld_s8 buf p = (if p + 1 \<le> length buf then Inr (buf ! p) else Inl ReadOutsideBuffer)"

definition ld_u16 :: "byte list \<Rightarrow> nat \<Rightarrow> error + u16" where
  "ld_u16 buf p =
     (if p + 2 \<le> length buf then Inr (le16 (buf ! p) (buf ! (p + 1))) else Inl ReadOutsideBuffer)"


definition ld_u32 :: "byte list \<Rightarrow> nat \<Rightarrow> error + u32" where
  "ld_u32 buf p =
     (if p + 4 \<le> length buf
      then Inr (le32 (buf ! p) (buf ! (p + 1)) (buf ! (p + 2)) (buf ! (p + 3)))
      else Inl ReadOutsideBuffer)"

definition u32_at :: "byte list \<Rightarrow> nat \<Rightarrow> u32" where
  "u32_at buf p = le32 (buf ! p) (buf ! (p + 1)) (buf ! (p + 2)) (buf ! (p + 3))"

definition memcpy_from :: "byte list \<Rightarrow> nat \<Rightarrow> nat \<Rightarrow> error + byte list" where
  "memcpy_from buf p n =
     (if p + n \<le> length buf then Inr (take n (drop p buf)) else Inl ReadOutsideBuffer)"

fun u16_array :: "byte list \<Rightarrow> u16 list" where
  "u16_array (b0 # b1 # bs) = le16 b0 b1 # u16_array bs"
| "u16_array bs = []"

text \<open>
  \<^verbatim>\<open>v[i]\<close> of a \<^verbatim>\<open>std::vector\<close>, read and written; the index is an \<^verbatim>\<open>int\<close>.
\<close>

definition vec_get :: "'a list \<Rightarrow> int \<Rightarrow> error + 'a" where
  "vec_get v i = (if 0 \<le> i \<and> nat i < length v then Inr (v ! nat i) else Inl IndexOutsideVector)"

definition vec_set :: "'a list \<Rightarrow> int \<Rightarrow> 'a \<Rightarrow> error + 'a list" where
  "vec_set v i x = (if 0 \<le> i \<and> nat i < length v then Inr (v[nat i := x]) else Inl IndexOutsideVector)"

section \<open>The mesh walker over the loaded buffer (hgp.cpp, lines 185-233)\<close>

text \<open>
  The \<^verbatim>\<open>switch\<close> on \<^verbatim>\<open>vertex_type\<close> (lines 197-209; the same in the streaming walker, lines
  77-89): the stride, and what is printed on stderr.
\<close>

definition vertex_stride :: "u32 \<Rightarrow> int \<times> diagnostic list" where
  "vertex_stride vertex_type =
     (if vertex_type = 89 then (36, [])
      else if vertex_type = 93 then (56, [])
      else (0, [UnknownVertexType vertex_type]))"

text \<open>
  \<^verbatim>\<open>vertexBuffers[vertex_buffer_idx].stride = stride\<close> (line 213).
\<close>

definition set_stride :: "VertexBuffer list \<Rightarrow> int \<Rightarrow> int \<Rightarrow> error + VertexBuffer list" where
  "set_stride vbs idx s =
     (if 0 \<le> idx \<and> nat idx < length vbs
      then Inr (vbs[nat idx := (vbs ! nat idx)\<lparr>stride := s\<rparr>])
      else Inl IndexOutsideVector)"

text \<open>
  The inner \<^verbatim>\<open>do ... while\<close> (lines 217-231), entered with \<^verbatim>\<open>chunk_data\<close> pointing at the
  chunk record. The fields of \<^verbatim>\<open>struct HGPChunk\<close>: \<^verbatim>\<open>next_offset\<close> at 0,
  \<^verbatim>\<open>primitive_type\<close> at 4, \<^verbatim>\<open>num_elements\<close> (16 bits) at 8, \<^verbatim>\<open>elements_offset\<close> at 12;
  \<^verbatim>\<open>material_idx\<close> of \<^verbatim>\<open>struct HGPMesh\<close> at 8. The loop condition tests \<^verbatim>\<open>next_offset\<close> and
  then the pointer it assigns.
\<close>

fun hgp_chunks ::
  "nat \<Rightarrow> byte list \<Rightarrow> nat \<Rightarrow> nat \<Rightarrow> int \<Rightarrow> 'm \<Rightarrow> nat \<Rightarrow> 'm Chunk list \<Rightarrow> error + 'm Chunk list"
where
  "hgp_chunks 0 buf body mesh vbi transform chunk_data cs = Inl OutOfFuel"
| "hgp_chunks (Suc fuel) buf body mesh vbi transform chunk_data cs =
     ebind (ld_u32 buf (mesh + 8)) (\<lambda>material.
     ebind (ld_u32 buf (chunk_data + 4)) (\<lambda>primitive.
     ebind (ld_u16 buf (chunk_data + 8)) (\<lambda>n.
     ebind (ld_u32 buf (chunk_data + 12)) (\<lambda>elements_offset.
     ebind (memcpy_from buf (OFFSET body elements_offset) (unat n * 2)) (\<lambda>bytes.
     let chunk = \<lparr> vertex_buffer_idx = vbi, material_idx = material,
                     primitive_type = primitive, num_elements = n,
                     transformation = transform, element_buffer = u16_array bytes \<rparr>;
         cs' = addChunk cs chunk
     in ebind (ld_u32 buf chunk_data) (\<lambda>next_offset.
          if next_offset \<noteq> 0 \<and> OFFSET body next_offset \<noteq> 0
          then hgp_chunks fuel buf body mesh vbi transform (OFFSET body next_offset) cs'
          else Inr cs'))))))"

text \<open>
  The outer \<^verbatim>\<open>do ... while\<close> (lines 196-232) over the mesh records. The fields of
  \<^verbatim>\<open>struct HGPMesh\<close>: \<^verbatim>\<open>next_offset\<close> at 0, \<^verbatim>\<open>vertex_type\<close> at 12,
  \<^verbatim>\<open>vertex_buffer_idx\<close> at 28, \<^verbatim>\<open>chunk_offset\<close> at 48. The index
  \<^verbatim>\<open>mesh->vertex_buffer_idx - 1\<close> is computed in 32 bits and stored in an \<^verbatim>\<open>int\<close>. The first
  argument bounds the iterations of each chunk loop, the second those of the mesh loop.
\<close>

fun hgp_meshes ::
  "nat \<Rightarrow> nat \<Rightarrow> byte list \<Rightarrow> nat \<Rightarrow> 'm \<Rightarrow> nat \<Rightarrow> 'm walker_state \<Rightarrow> error + 'm walker_state"
where
  "hgp_meshes cfuel 0 buf body transform mesh st = Inl OutOfFuel"
| "hgp_meshes cfuel (Suc fuel) buf body transform mesh st =
     ebind (ld_u32 buf (mesh + 12)) (\<lambda>vertex_type.
     let (stride, diag) = vertex_stride vertex_type
     in ebind (ld_u32 buf (mesh + 28)) (\<lambda>vbi_raw.
     let vbi = sint (vbi_raw - 1)
     in ebind (set_stride (vertexBuffers st) vbi stride) (\<lambda>vbs.
     ebind (ld_u32 buf (mesh + 48)) (\<lambda>chunk_offset.
     ebind (hgp_chunks cfuel buf body mesh vbi transform (OFFSET body chunk_offset)
              (model_chunks st)) (\<lambda>cs.
     let st' = \<lparr> model_chunks = cs, vertexBuffers = vbs,
                   stderr_log = stderr_log st @ diag \<rparr>
     in ebind (ld_u32 buf mesh) (\<lambda>next_offset.
          if next_offset \<noteq> 0 \<and> OFFSET body next_offset \<noteq> 0
          then hgp_meshes cfuel fuel buf body transform (OFFSET body next_offset) st'
          else Inr st'))))))"

text \<open>
  \<^verbatim>\<open>HGPModel::processMesh\<close>: the two early returns, then the mesh loop. \<^verbatim>\<open>mesh_offset\<close> is
  at 12 in \<^verbatim>\<open>struct HGPMeshHeader\<close>.
\<close>

definition hgp_processMesh ::
  "nat \<Rightarrow> byte list \<Rightarrow> nat \<Rightarrow> u32 \<Rightarrow> 'm \<Rightarrow> 'm walker_state \<Rightarrow> error + 'm walker_state"
where
  "hgp_processMesh fuel buf body mesh_header_offset transform st =
     (if mesh_header_offset = 0 then Inr st
      else ebind (ld_u32 buf (OFFSET body mesh_header_offset + 12)) (\<lambda>mesh_offset.
        if mesh_offset = 0 then Inr st
        else hgp_meshes fuel fuel buf body transform (OFFSET body mesh_offset) st))"

section \<open>The stream\<close>

text \<open>
  Modelled from the spec: the \<^verbatim>\<open>Stream\<close> class is declared in a header that is not among the
  sources. A stream is the bytes of the file and a cursor.
\<close>

record Stream =
  stream_data :: "byte list"
  stream_pos :: nat

datatype whence = SEEK_SET | SEEK_CUR

text \<open>
  Modelled from the spec: \<^verbatim>\<open>Stream::seek\<close>. "Performs seek(body_base + offset) then
  sequential typed reads, advancing a stream cursor; seek with a relative CUR origin is used
  for skipping unknown padding fields." Moving the cursor does not fail; reads do.
\<close>

definition seek :: "Stream \<Rightarrow> nat \<Rightarrow> whence \<Rightarrow> Stream" where
  "seek s off w =
     (case w of SEEK_SET \<Rightarrow> s\<lparr>stream_pos := off\<rparr>
              | SEEK_CUR \<Rightarrow> s\<lparr>stream_pos := stream_pos s + off\<rparr>)"

text \<open>
  Modelled from the spec: \<^verbatim>\<open>Stream::readUint16\<close>. A little-endian 16-bit value at the
  cursor, which advances by 2; a read that would "exceed the declared stream length" is
  rejected with a bounds error.
\<close>

definition readUint16 :: "Stream \<Rightarrow> error + (u16 \<times> Stream)" where
  "readUint16 s =
     (let p = stream_pos s; d = stream_data s
      in if p + 2 \<le> length d
         then Inr (le16 (d ! p) (d ! (p + 1)), s\<lparr>stream_pos := p + 2\<rparr>)
         else Inl StreamBounds)"

text \<open>
  Modelled from the spec: \<^verbatim>\<open>Stream::readUint32\<close>. A little-endian 32-bit value at the
  cursor, which advances by 4; a read that would "exceed the declared stream length" is
  rejected with a bounds error.
\<close>

definition readUint32 :: "Stream \<Rightarrow> error + (u32 \<times> Stream)" where
  "readUint32 s =
     (let p = stream_pos s; d = stream_data s
      in if p + 4 \<le> length d
         then Inr (le32 (d ! p) (d ! (p + 1)) (d ! (p + 2)) (d ! (p + 3)),
                   s\<lparr>stream_pos := p + 4\<rparr>)
         else Inl StreamBounds)"

section \<open>The streaming mesh walker (lsw.cpp, lines 21-130)\<close>

text \<open>
  \<^verbatim>\<open>struct Mesh\<close> and \<^verbatim>\<open>struct Chunk\<close> of \<^verbatim>\<open>lsw.hpp\<close> (not among the sources), with
  the fields the two readers assign.
\<close>

record LSW_Mesh =
  mesh_next_offset :: u32
  mesh_material_idx :: u32
  mesh_vertex_type :: u32
  mesh_vertex_block_idx :: u32
  mesh_chunk_offset :: u32

record LSW_Chunk =
  chunk_next_offset :: u32
  chunk_primitive_type :: u32
  chunk_num_elements :: u16
  chunk_elements_offset :: u32

text \<open>
  \<^verbatim>\<open>readMeshInfo\<close> (lines 21-41) and \<^verbatim>\<open>readChunkInfo\<close> (lines 43-57). The seek position
  \<^verbatim>\<open>body_offset + mesh_offset\<close> is a sum of two \<^verbatim>\<open>uint32_t\<close>: it wraps at 32 bits.
\<close>

definition readMeshInfo :: "Stream \<Rightarrow> u32 \<Rightarrow> u32 \<Rightarrow> error + (LSW_Mesh \<times> Stream)" where
  "readMeshInfo stream body_offset mesh_offset =
     (let s0 = seek stream (unat (body_offset + mesh_offset)) SEEK_SET
      in ebind (readUint32 s0) (\<lambda>(next_offset, s1).
         let s2 = seek s1 4 SEEK_CUR
         in ebind (readUint32 s2) (\<lambda>(material_idx, s3).
            ebind (readUint32 s3) (\<lambda>(vertex_type, s4).
            let s5 = seek s4 (3 * 4) SEEK_CUR
            in ebind (readUint32 s5) (\<lambda>(vertex_block_idx, s6).
               let s7 = seek s6 (4 * 4) SEEK_CUR
               in ebind (readUint32 s7) (\<lambda>(chunk_offset, s8).
                  Inr (\<lparr> mesh_next_offset = next_offset, mesh_material_idx = material_idx,
                          mesh_vertex_type = vertex_type,
                          mesh_vertex_block_idx = vertex_block_idx,
                          mesh_chunk_offset = chunk_offset \<rparr>, s8)))))))"

definition readChunkInfo :: "Stream \<Rightarrow> u32 \<Rightarrow> u32 \<Rightarrow> error + (LSW_Chunk \<times> Stream)" where
  "readChunkInfo stream body_offset chunk_offset =
     (let s0 = seek stream (unat (body_offset + chunk_offset)) SEEK_SET
      in ebind (readUint32 s0) (\<lambda>(next_offset, s1).
         ebind (readUint32 s1) (\<lambda>(primitive_type, s2).
         ebind (readUint16 s2) (\<lambda>(n, s3).
         let s4 = seek s3 2 SEEK_CUR
         in ebind (readUint32 s4) (\<lambda>(elements_offset, s5).
            Inr (\<lparr> chunk_next_offset = next_offset, chunk_primitive_type = primitive_type,
                    chunk_num_elements = n, chunk_elements_offset = elements_offset \<rparr>,
                 s5))))))"

text \<open>
  The \<^verbatim>\<open>for\<close> loop of lines 112-113: \<^verbatim>\<open>num_elements\<close> reads of 16 bits.
\<close>

fun read_elements :: "nat \<Rightarrow> Stream \<Rightarrow> u16 list \<Rightarrow> error + (u16 list \<times> Stream)" where
  "read_elements 0 s acc = Inr (acc, s)"
| "read_elements (Suc k) s acc =
     ebind (readUint16 s) (\<lambda>(v, s'). read_elements k s' (acc @ [v]))"

text \<open>
  The inner loop (lines 98-122), the outer loop (lines 76-129) and
  \<^verbatim>\<open>Mortar::LSW::processMesh\<close> (lines 59-130). The stream is passed by reference: the walker
  returns it with its cursor moved.
\<close>

fun lsw_chunks ::
  "nat \<Rightarrow> u32 \<Rightarrow> int \<Rightarrow> LSW_Mesh \<Rightarrow> 'm \<Rightarrow> LSW_Chunk \<Rightarrow> Stream \<Rightarrow> 'm Chunk list
     \<Rightarrow> error + ('m Chunk list \<times> Stream)"
where
  "lsw_chunks 0 body_offset vbi mesh transform chunk_data stream cs = Inl OutOfFuel"
| "lsw_chunks (Suc fuel) body_offset vbi mesh transform chunk_data stream cs =
     (let s1 = seek stream (unat (body_offset + chunk_elements_offset chunk_data)) SEEK_SET
      in ebind (read_elements (unat (chunk_num_elements chunk_data)) s1 []) (\<lambda>(elems, s2).
         let chunk = \<lparr> vertex_buffer_idx = vbi, material_idx = mesh_material_idx mesh,
                         primitive_type = chunk_primitive_type chunk_data,
                         num_elements = chunk_num_elements chunk_data,
                         transformation = transform, element_buffer = elems \<rparr>;
             cs' = addChunk cs chunk
         in if chunk_next_offset chunk_data \<noteq> 0
            then ebind (readChunkInfo s2 body_offset (chunk_next_offset chunk_data))
                   (\<lambda>(chunk_data', s3).
                      lsw_chunks fuel body_offset vbi mesh transform chunk_data' s3 cs')
            else Inr (cs', s2)))"

fun lsw_meshes ::
  "nat \<Rightarrow> nat \<Rightarrow> u32 \<Rightarrow> 'm \<Rightarrow> LSW_Mesh \<Rightarrow> Stream \<Rightarrow> 'm walker_state
     \<Rightarrow> error + ('m walker_state \<times> Stream)"
where
  "lsw_meshes cfuel 0 body_offset transform mesh stream st = Inl OutOfFuel"
| "lsw_meshes cfuel (Suc fuel) body_offset transform mesh stream st =
     (let (stride, diag) = vertex_stride (mesh_vertex_type mesh);
          vbi = sint (mesh_vertex_block_idx mesh - 1)
      in ebind (set_stride (vertexBuffers st) vbi stride) (\<lambda>vbs.
         ebind (readChunkInfo stream body_offset (mesh_chunk_offset mesh)) (\<lambda>(chunk_data, s1).
         ebind (lsw_chunks cfuel body_offset vbi mesh transform chunk_data s1 (model_chunks st))
           (\<lambda>(cs, s2).
         let st' = \<lparr> model_chunks = cs, vertexBuffers = vbs,
                       stderr_log = stderr_log st @ diag \<rparr>
         in if mesh_next_offset mesh \<noteq> 0
            then ebind (readMeshInfo s2 body_offset (mesh_next_offset mesh)) (\<lambda>(mesh', s3).
                   lsw_meshes cfuel fuel body_offset transform mesh' s3 st')
            else Inr (st', s2)))))"

definition lsw_processMesh ::
  "nat \<Rightarrow> Stream \<Rightarrow> u32 \<Rightarrow> u32 \<Rightarrow> 'm \<Rightarrow> 'm walker_state \<Rightarrow> error + ('m walker_state \<times> Stream)"
where
  "lsw_processMesh fuel stream body_offset mesh_header_offset transform st =
     (if mesh_header_offset = 0 then Inr (st, stream)
      else
        let s0 = seek stream (unat (body_offset + mesh_header_offset)) SEEK_SET;
            s1 = seek s0 (3 * 4) SEEK_CUR
        in ebind (readUint32 s1) (\<lambda>(mesh_offset, s2).
           if mesh_offset = 0 then Inr (st, s2)
           else ebind (readMeshInfo s2 body_offset mesh_offset) (\<lambda>(mesh, s3).
                  lsw_meshes fuel fuel body_offset transform mesh s3 st)))"

section \<open>The constructor (hgp.cpp, lines 235-343)\<close>

text \<open>
  The texture index of a material (lines 282-285). \<^verbatim>\<open>material->texture_idx\<close> is an
  \<^verbatim>\<open>int16_t\<close>; in the test and in the mask it is promoted to \<^verbatim>\<open>int\<close> (sign extension,
  \<open>scast\<close>) before \<^verbatim>\<open>&\<close> is applied.
\<close>

definition material_texture_idx :: "16 word \<Rightarrow> int" where
  "material_texture_idx idx =
     (let p = (scast idx :: 32 word)
      in if p \<noteq> - 1 \<and> (p AND 0x8000) \<noteq> 0 then sint (p AND 0x7FFF) else sint p)"





text \<open>
  The loop that composes the mesh tree's transforms (lines 297-302). The matrix product
  \<open>mul\<close> and the reading of a \<^verbatim>\<open>Matrix\<close> from the buffer \<open>ld_matrix\<close> are parameters
  (\<^verbatim>\<open>matrix.hpp\<close> is not among the sources). A \<^verbatim>\<open>Matrix\<close> takes 64 bytes and a
  \<^verbatim>\<open>struct HGPMeshTreeNode\<close> 96, with the signed 8-bit \<^verbatim>\<open>parent_idx\<close> at 80.
\<close>

function transform_loop ::
  "('m \<Rightarrow> 'm \<Rightarrow> 'm) \<Rightarrow> (byte list \<Rightarrow> nat \<Rightarrow> error + 'm) \<Rightarrow> byte list \<Rightarrow> nat \<Rightarrow> nat \<Rightarrow> nat \<Rightarrow> nat
     \<Rightarrow> 'm list \<Rightarrow> error + 'm list"
where
  "transform_loop mul ld_matrix buf tree_nodes transform_matrices num_meshes i modelTransforms =
     (if i < num_meshes
      then ebind (ld_matrix buf (transform_matrices + 64 * i)) (\<lambda>local.
           ebind (vec_set modelTransforms (int i) local) (\<lambda>mt.
           ebind (ld_s8 buf (tree_nodes + 96 * i + 80)) (\<lambda>parent_idx.
             if sint parent_idx \<noteq> - 1
             then ebind (vec_get mt (int i)) (\<lambda>own.
                  ebind (vec_get mt (sint parent_idx)) (\<lambda>parent.
                  ebind (vec_set mt (int i) (mul own parent)) (\<lambda>mt'.
                    transform_loop mul ld_matrix buf tree_nodes transform_matrices num_meshes
                      (i + 1) mt')))
             else transform_loop mul ld_matrix buf tree_nodes transform_matrices num_meshes
                    (i + 1) mt)))
      else Inr modelTransforms)"
  by pat_completeness auto
termination
  by (relation "measure (\<lambda>(mul, ld_matrix, buf, tree_nodes, transform_matrices, num_meshes, i, mt).
        num_meshes - i)") auto



text \<open>
  The layer loops (lines 319-337): over the mesh indices of an even slot, over the 4 slots of
  a layer, over the layers. A \<^verbatim>\<open>struct HGPLayerHeader\<close> takes 20 bytes, with
  \<^verbatim>\<open>mesh_header_list_offsets\<close> at 4.
\<close>

function per_mesh_loop ::
  "nat \<Rightarrow> byte list \<Rightarrow> nat \<Rightarrow> nat \<Rightarrow> 'm list \<Rightarrow> nat \<Rightarrow> nat \<Rightarrow> 'm walker_state
     \<Rightarrow> error + 'm walker_state"
where
  "per_mesh_loop fuel buf body mesh_header_offsets modelTransforms num_meshes k st =
     (if k < num_meshes
      then ebind (ld_u32 buf (mesh_header_offsets + 4 * k)) (\<lambda>mesh_header_offset.
           ebind (vec_get modelTransforms (int k)) (\<lambda>transform.
           ebind (hgp_processMesh fuel buf body mesh_header_offset transform st) (\<lambda>st'.
             per_mesh_loop fuel buf body mesh_header_offsets modelTransforms num_meshes
               (k + 1) st')))
      else Inr st)"
  by pat_completeness auto
termination
  by (relation "measure (\<lambda>(fuel, buf, body, mesh_header_offsets, modelTransforms, num_meshes, k, st).
        num_meshes - k)") auto

declare per_mesh_loop.simps [simp del]

function slot_loop ::
  "nat \<Rightarrow> ('m \<Rightarrow> 'm \<Rightarrow> 'm) \<Rightarrow> (byte list \<Rightarrow> nat \<Rightarrow> error + 'm) \<Rightarrow> byte list \<Rightarrow> nat \<Rightarrow> nat \<Rightarrow> nat
     \<Rightarrow> 'm list \<Rightarrow> nat \<Rightarrow> nat \<Rightarrow> 'm walker_state \<Rightarrow> error + 'm walker_state"
where
  "slot_loop fuel mul ld_matrix buf body layer_header static_transform_matrices modelTransforms
       num_meshes j st =
     (if j < 4
      then ebind (ld_u32 buf (layer_header + 4 + 4 * j)) (\<lambda>slot.
             if slot = 0
             then slot_loop fuel mul ld_matrix buf body layer_header static_transform_matrices
                    modelTransforms num_meshes (j + 1) st
             else if j mod 2 = 0
             then ebind (per_mesh_loop fuel buf body (OFFSET body slot) modelTransforms
                           num_meshes 0 st) (\<lambda>st'.
                    slot_loop fuel mul ld_matrix buf body layer_header static_transform_matrices
                      modelTransforms num_meshes (j + 1) st')
             else ebind (ld_matrix buf static_transform_matrices) (\<lambda>static0.
                  ebind (vec_get modelTransforms 0) (\<lambda>world0.
                  ebind (hgp_processMesh fuel buf body slot (mul static0 world0) st) (\<lambda>st'.
                    slot_loop fuel mul ld_matrix buf body layer_header static_transform_matrices
                      modelTransforms num_meshes (j + 1) st'))))
      else Inr st)"
  by pat_completeness auto
termination
  by (relation "measure (\<lambda>(fuel, mul, ld_matrix, buf, body, layer_header,
        static_transform_matrices, modelTransforms, num_meshes, j, st). 4 - j)") auto

declare slot_loop.simps [simp del]

function layer_loop ::
  "nat \<Rightarrow> ('m \<Rightarrow> 'm \<Rightarrow> 'm) \<Rightarrow> (byte list \<Rightarrow> nat \<Rightarrow> error + 'm) \<Rightarrow> byte list \<Rightarrow> nat \<Rightarrow> nat \<Rightarrow> nat
     \<Rightarrow> 'm list \<Rightarrow> nat \<Rightarrow> nat \<Rightarrow> nat \<Rightarrow> 'm walker_state \<Rightarrow> error + 'm walker_state"
where
  "layer_loop fuel mul ld_matrix buf body layer_headers static_transform_matrices modelTransforms
       num_meshes num_layers i st =
     (if i < num_layers
      then if i \<noteq> 0 \<and> i \<noteq> 2
           then layer_loop fuel mul ld_matrix buf body layer_headers static_transform_matrices
                  modelTransforms num_meshes num_layers (i + 1) st
           else ebind (slot_loop fuel mul ld_matrix buf body (layer_headers + 20 * i)
                         static_transform_matrices modelTransforms num_meshes 0 st) (\<lambda>st'.
                  layer_loop fuel mul ld_matrix buf body layer_headers static_transform_matrices
                    modelTransforms num_meshes num_layers (i + 1) st')
      else Inr st)"
  by pat_completeness auto
termination
  by (relation "measure (\<lambda>(fuel, mul, ld_matrix, buf, body, layer_headers,
        static_transform_matrices, modelTransforms, num_meshes, num_layers, i, st).
        num_layers - i)") auto

declare layer_loop.simps [simp del]










chapter \<open>Specification\<close>

text \<open>
  The notions the claims are stated with: the record found at an address, a chain of chunk
  records, the chunk a record should give, the effect of one mesh record, and the list of
  mesh-walker calls of the assembler.
\<close>

section \<open>Records in the image\<close>

text \<open>
  \<open>chunk_at\<close> and \<open>mesh_at\<close>: the fields the bulk walker loads at an address are those of the
  record the streaming reader returns. \<open>chunk_fields\<close> is the chunk record found at an address.
\<close>

definition chunk_at :: "byte list \<Rightarrow> nat \<Rightarrow> LSW_Chunk \<Rightarrow> bool" where
  "chunk_at buf cd c =
     (ld_u32 buf cd = Inr (chunk_next_offset c) \<and>
      ld_u32 buf (cd + 4) = Inr (chunk_primitive_type c) \<and>
      ld_u16 buf (cd + 8) = Inr (chunk_num_elements c) \<and>
      ld_u32 buf (cd + 12) = Inr (chunk_elements_offset c))"

definition mesh_at :: "byte list \<Rightarrow> nat \<Rightarrow> LSW_Mesh \<Rightarrow> bool" where
  "mesh_at buf mesh m =
     (ld_u32 buf mesh = Inr (mesh_next_offset m) \<and>
      ld_u32 buf (mesh + 8) = Inr (mesh_material_idx m) \<and>
      ld_u32 buf (mesh + 12) = Inr (mesh_vertex_type m) \<and>
      ld_u32 buf (mesh + 28) = Inr (mesh_vertex_block_idx m) \<and>
      ld_u32 buf (mesh + 48) = Inr (mesh_chunk_offset m))"

definition chunk_fields :: "byte list \<Rightarrow> nat \<Rightarrow> LSW_Chunk" where
  "chunk_fields buf p =
     \<lparr> chunk_next_offset = le32 (buf ! p) (buf ! (p + 1)) (buf ! (p + 2)) (buf ! (p + 3)),
       chunk_primitive_type =
         le32 (buf ! (p + 4)) (buf ! (p + 4 + 1)) (buf ! (p + 4 + 2)) (buf ! (p + 4 + 3)),
       chunk_num_elements = le16 (buf ! (p + 8)) (buf ! (p + 8 + 1)),
       chunk_elements_offset =
         le32 (buf ! (p + 12)) (buf ! (p + 12 + 1)) (buf ! (p + 12 + 2)) (buf ! (p + 12 + 3)) \<rparr>"

text \<open>
  The chunk emitted for a chunk record, and the 16-bit indices of the source at an address.
\<close>

definition emit_chunk :: "int \<Rightarrow> u32 \<Rightarrow> 'm \<Rightarrow> LSW_Chunk \<Rightarrow> u16 list \<Rightarrow> 'm Chunk" where
  "emit_chunk vbi mat tr c elems =
     \<lparr> vertex_buffer_idx = vbi, material_idx = mat,
       primitive_type = chunk_primitive_type c, num_elements = chunk_num_elements c,
       transformation = tr, element_buffer = elems \<rparr>"

definition source_elements :: "byte list \<Rightarrow> nat \<Rightarrow> nat \<Rightarrow> u16 list" where
  "source_elements buf e n = map (\<lambda>i. le16 (buf ! (e + 2 * i)) (buf ! (e + 2 * i + 1))) [0..<n]"

definition expected_chunk :: "byte list \<Rightarrow> nat \<Rightarrow> int \<Rightarrow> u32 \<Rightarrow> 'm \<Rightarrow> u32 \<Rightarrow> 'm Chunk" where
  "expected_chunk buf body vbi mat tr off =
     (let c = chunk_fields buf (OFFSET body off)
      in emit_chunk vbi mat tr c
           (source_elements buf (OFFSET body (chunk_elements_offset c))
              (unat (chunk_num_elements c))))"

section \<open>Chunk chains\<close>

text \<open>
  A chunk chain: records linked by \<^verbatim>\<open>next_offset\<close>, the last one with \<^verbatim>\<open>next_offset = 0\<close>.
  A record is in range when its 16 bytes and its index array lie inside the image.
\<close>

fun chunk_chain :: "byte list \<Rightarrow> nat \<Rightarrow> u32 list \<Rightarrow> bool" where
  "chunk_chain buf body [] = False"
| "chunk_chain buf body [off] = (chunk_next_offset (chunk_fields buf (OFFSET body off)) = 0)"
| "chunk_chain buf body (off # off' # offs) =
     (off' \<noteq> 0 \<and> chunk_next_offset (chunk_fields buf (OFFSET body off)) = off' \<and>
      chunk_chain buf body (off' # offs))"

definition chunk_in_range :: "byte list \<Rightarrow> nat \<Rightarrow> u32 \<Rightarrow> bool" where
  "chunk_in_range buf body off =
     (let p = OFFSET body off; c = chunk_fields buf p
      in p + 16 \<le> length buf \<and>
         OFFSET body (chunk_elements_offset c) + 2 * unat (chunk_num_elements c) \<le> length buf)"

section \<open>The effect of one mesh record\<close>

text \<open>
  What the specification says one mesh record does, given the offsets \<open>offs\<close> of the records
  of its chunk chain: the vertex buffer it names gets the stride of the vertex type (36 for
  type 89, 56 for type 93, 0 otherwise), one chunk per record of the chain is appended, and an
  unknown vertex type adds a diagnostic.
\<close>

definition mesh_effect ::
  "byte list \<Rightarrow> nat \<Rightarrow> 'm \<Rightarrow> LSW_Mesh \<Rightarrow> u32 list \<Rightarrow> 'm walker_state \<Rightarrow> 'm walker_state"
where
  "mesh_effect buf body tr m offs st =
     (let vt = mesh_vertex_type m; vbi = sint (mesh_vertex_block_idx m - 1)
      in \<lparr> model_chunks =
             model_chunks st @ map (expected_chunk buf body vbi (mesh_material_idx m) tr) offs,
           vertexBuffers =
             (vertexBuffers st)[nat vbi := (vertexBuffers st ! nat vbi)
                \<lparr>stride := (if vt = 89 then 36 else if vt = 93 then 56 else 0)\<rparr>],
           stderr_log =
             stderr_log st @ (if vt = 89 \<or> vt = 93 then [] else [UnknownVertexType vt]) \<rparr>)"

section \<open>The calls of the assembler\<close>

text \<open>
  The mesh-walker calls (mesh-header offset and transform) of one slot, and of all walked
  layers in order; running the mesh walker over a list of calls; and the tables of the walked
  layers lying inside the image.
\<close>

definition slot_calls ::
  "('m \<Rightarrow> 'm \<Rightarrow> 'm) \<Rightarrow> 'm \<Rightarrow> byte list \<Rightarrow> nat \<Rightarrow> 'm list \<Rightarrow> nat \<Rightarrow> nat \<Rightarrow> nat \<Rightarrow> (u32 \<times> 'm) list"
where
  "slot_calls mul smat buf body world num_meshes layer_header j =
     (let slot = u32_at buf (layer_header + 4 + 4 * j)
      in if slot = 0 then []
         else if even j
         then map (\<lambda>k. (u32_at buf (OFFSET body slot + 4 * k), world ! k)) [0..<num_meshes]
         else [(slot, mul smat (world ! 0))])"

definition assembler_calls ::
  "('m \<Rightarrow> 'm \<Rightarrow> 'm) \<Rightarrow> 'm \<Rightarrow> byte list \<Rightarrow> nat \<Rightarrow> 'm list \<Rightarrow> nat \<Rightarrow> nat \<Rightarrow> nat \<Rightarrow> (u32 \<times> 'm) list"
where
  "assembler_calls mul smat buf body world num_meshes layer_headers num_layers =
     concat (map (\<lambda>i. concat (map (slot_calls mul smat buf body world num_meshes
                                     (layer_headers + 20 * i)) [0..<4]))
               (filter (\<lambda>i. i = 0 \<or> i = 2) [0..<num_layers]))"

fun walk_calls ::
  "nat \<Rightarrow> byte list \<Rightarrow> nat \<Rightarrow> (u32 \<times> 'm) list \<Rightarrow> 'm walker_state \<Rightarrow> error + 'm walker_state"
where
  "walk_calls fuel buf body [] st = Inr st"
| "walk_calls fuel buf body ((mesh_header_offset, transform) # calls) st =
     ebind (hgp_processMesh fuel buf body mesh_header_offset transform st)
       (walk_calls fuel buf body calls)"

definition slot_tables_in_range :: "byte list \<Rightarrow> nat \<Rightarrow> nat \<Rightarrow> nat \<Rightarrow> bool" where
  "slot_tables_in_range buf body num_meshes layer_header =
     (layer_header + 20 \<le> length buf \<and>
      list_all (\<lambda>j. let slot = u32_at buf (layer_header + 4 + 4 * j)
                    in slot = 0 \<or> OFFSET body slot + 4 * num_meshes \<le> length buf) [0, 2])"

definition layer_tables_in_range :: "byte list \<Rightarrow> nat \<Rightarrow> nat \<Rightarrow> nat \<Rightarrow> nat \<Rightarrow> bool" where
  "layer_tables_in_range buf body num_meshes layer_headers num_layers =
     list_all (\<lambda>i. slot_tables_in_range buf body num_meshes (layer_headers + 20 * i))
       (filter (\<lambda>i. i = 0 \<or> i = 2) [0..<num_layers])"

chapter \<open>Test images\<close>

text \<open>
  Small images and parameters on which the definitions are evaluated. \<open>file1\<close>: a 48-byte
  header of zeros, then a chunk record at body offset 0 (3 indices at \<open>0x10\<close>), a mesh header at
  \<open>0x18\<close> and its mesh record at \<open>0x28\<close> (vertex type 89, vertex buffer 1, chunk offset 0).
  \<open>fixture vt\<close>: two chunk records (\<open>0x00\<close> linked to \<open>0x20\<close>), a mesh header at \<open>0x38\<close>, a
  mesh of vertex type \<open>vt\<close> at \<open>0x48\<close> (chunk offset 0) linked to a mesh of type 89 at \<open>0x7C\<close>
  (chunk offset \<open>0x20\<close>), both on vertex buffer 1. \<open>minimal_image\<close>: a whole file with one
  texture, one material, one vertex block, one tree node and one layer whose slot 0 lists the
  mesh of \<open>file1\<close>. \<open>wrap_image\<close>: \<open>file1\<close> with \<open>0x28\<close> at byte 12 of the header.
\<close>

definition u16le :: "u16 \<Rightarrow> byte list" where
  "u16le w = [ucast w, ucast (drop_bit 8 w)]"

definition u32le :: "u32 \<Rightarrow> byte list" where
  "u32le w = [ucast w, ucast (drop_bit 8 w), ucast (drop_bit 16 w), ucast (drop_bit 24 w)]"

definition file1 :: "byte list" where
  "file1 = replicate 48 0
     @ u32le 0 @ u32le 4 @ u16le 3 @ u16le 0 @ u32le 0x10
     @ u16le 0 @ u16le 1 @ u16le 2 @ u16le 0
     @ u32le 0 @ u32le 0 @ u32le 0 @ u32le 0x28
     @ u32le 0 @ u32le 0 @ u32le 7 @ u32le 89 @ u32le 0 @ u32le 0 @ u32le 0 @ u32le 1
     @ u32le 0 @ u32le 0 @ u32le 0 @ u32le 0 @ u32le 0"

definition st0 :: "nat walker_state" where
  "st0 = \<lparr> model_chunks = [], vertexBuffers = [\<lparr>vb_size = 0, vb_data = [], stride = 0\<rparr>], stderr_log = [] \<rparr>"

definition st1 :: "nat list walker_state" where
  "st1 = \<lparr> model_chunks = [],
           vertexBuffers = [\<lparr>vb_size = 0, vb_data = [], stride = 0\<rparr>], stderr_log = [] \<rparr>"

definition fixture :: "u32 \<Rightarrow> byte list" where
  "fixture vt = replicate 48 0
     @ u32le 0x20 @ u32le 4 @ u16le 3 @ u16le 0 @ u32le 0x10
     @ u16le 0 @ u16le 1 @ u16le 2 @ u16le 0
     @ u32le 0 @ u32le 0
     @ u32le 0 @ u32le 5 @ u16le 2 @ u16le 0 @ u32le 0x30
     @ u16le 7 @ u16le 9 @ u32le 0
     @ u32le 0 @ u32le 0 @ u32le 0 @ u32le 0x48
     @ u32le 0x7C @ u32le 0 @ u32le 7 @ u32le vt @ u32le 0 @ u32le 0 @ u32le 0 @ u32le 1
     @ u32le 0 @ u32le 0 @ u32le 0 @ u32le 0 @ u32le 0
     @ u32le 0 @ u32le 0 @ u32le 8 @ u32le 89 @ u32le 0 @ u32le 0 @ u32le 0 @ u32le 1
     @ u32le 0 @ u32le 0 @ u32le 0 @ u32le 0 @ u32le 0x20"

definition mesh7 :: LSW_Mesh where
  "mesh7 = \<lparr> mesh_next_offset = 0x7C, mesh_material_idx = 7, mesh_vertex_type = 90,
             mesh_vertex_block_idx = 1, mesh_chunk_offset = 0 \<rparr>"

definition mesh1 :: LSW_Mesh where
  "mesh1 = \<lparr> mesh_next_offset = 0, mesh_material_idx = 7, mesh_vertex_type = 89,
             mesh_vertex_block_idx = 1, mesh_chunk_offset = 0 \<rparr>"

definition probe_matrix :: "byte list \<Rightarrow> nat \<Rightarrow> error + nat list" where
  "probe_matrix buf p =
     (if p + 64 \<le> length buf then Inr [unat (buf ! p)] else Inl ReadOutsideBuffer)"


definition tree_image :: "byte list" where
  "tree_image = (5 # replicate 63 0) @ (6 # replicate 63 0)
     @ (replicate 80 0 @ [0xFF] @ replicate 15 0)
     @ (replicate 80 0 @ [0] @ replicate 15 0)"

definition layer_image :: "byte list" where
  "layer_image = file1
     @ u32le 0x18 @ u32le 0
     @ u32le 0 @ u32le 0x5C @ u32le 0x18 @ u32le 0 @ u32le 0
     @ (9 # replicate 63 0)"









chapter \<open>Properties\<close>

section \<open>Facts about the promoted texture index\<close>

lemma promote_minus1: "((scast (t :: 16 word) :: 32 word) = - 1) = (t = - 1)"
proof
  assume "(scast t :: 32 word) = - 1"
  then have "sint (scast t :: 32 word) = sint (- 1 :: 32 word)" by simp
  then have "sint t = sint (- 1 :: 16 word)" by (simp add: sint_up_scast is_up)
  then show "t = - 1" by (rule signed_word_eqI)
next
  assume "t = - 1" then show "(scast t :: 32 word) = - 1" by simp
qed

lemma promote_bit15: "((scast (t :: 16 word) :: 32 word) AND 0x8000 \<noteq> 0) = bit t 15"
proof -
  have e: "(0x8000 :: 32 word) = 2 ^ 15" by simp
  show ?thesis
    unfolding e by (simp only: and_exp_eq_0_iff_not_bit) (simp add: bit_word_scast_iff)
qed

lemma sint_ucast_16_32: "sint (ucast (x :: 16 word) :: 32 word) = uint x"
proof -
  have "uint x < 2 ^ 16" using uint_bounded [of x] by simp
  then have b: "uint x < 2 ^ 31" by simp
  have c: "- (2 ^ 31) \<le> uint x"
    by (rule order_trans [of _ 0]) simp_all
  have "sint (ucast x :: 32 word) = signed_take_bit 31 (uint (ucast x :: 32 word))"
    by (simp add: sint_uint)
  also have "\<dots> = signed_take_bit 31 (uint x)"
    by (simp add: uint_up_ucast is_up)
  also have "\<dots> = uint x"
    using c b by (rule signed_take_bit_int_eq_self)
  finally show ?thesis .
qed

lemma promote_low15:
  "sint ((scast (t :: 16 word) :: 32 word) AND 0x7FFF) = uint (t AND 0x7FFF)"
proof -
  have m: "(0x7FFF :: 32 word) = mask 15" "(0x7FFF :: 16 word) = mask 15"
    by (simp_all add: mask_eq_exp_minus_1)
  have "(scast t :: 32 word) AND mask 15 = ucast (t AND mask 15)"
    by (rule bit_word_eqI) (auto simp: bit_simps)
  then show ?thesis
    unfolding m by (simp add: sint_ucast_16_32)
qed

lemma promote_sint: "sint (scast (t :: 16 word) :: 32 word) = sint t"
  by (simp add: sint_up_scast is_up)

text \<open>
  Claim C5. The normalised texture index of a material is \<open>-1\<close> ("no texture") when the
  stored signed 16-bit index is \<open>-1\<close>; the low 15 bits of the stored value when it is not
  \<open>-1\<close> and has bit \<open>0x8000\<close> set (\<open>0x8005\<close> gives \<open>5\<close>); and the stored value unchanged
  otherwise (\<open>5\<close> gives \<open>5\<close>).
\<close>

theorem material_texture_idx_normalised:
  "material_texture_idx t =
     (if t = - 1 then - 1 else if bit t 15 then uint (t AND 0x7FFF) else sint t)
   \<and> material_texture_idx (- 1) = - 1
   \<and> material_texture_idx 0x8005 = 5
   \<and> material_texture_idx 5 = 5"
proof -
  have "material_texture_idx t =
     (if t = - 1 then - 1 else if bit t 15 then uint (t AND 0x7FFF) else sint t)"
    unfolding material_texture_idx_def Let_def promote_minus1 promote_bit15
      promote_low15 promote_sint
    by simp
  moreover have "material_texture_idx (- 1) = - 1"
    by (simp add: material_texture_idx_def)
  moreover have "material_texture_idx 0x8005 = 5"
    by (simp add: material_texture_idx_def)
  moreover have "material_texture_idx 5 = 5"
    by (simp add: material_texture_idx_def)
  ultimately show ?thesis by blast
qed

section \<open>Reads: bulk loads and stream reads\<close>

lemma ebind_Inr [simp]: "ebind (Inr x) f = f x"
  by (simp add: ebind_def)

lemma ebind_Inl [simp]: "ebind (Inl e) f = Inl e"
  by (simp add: ebind_def)

lemma ebind_eq_Inr: "(ebind m f = Inr y) = (\<exists>x. m = Inr x \<and> f x = Inr y)"
  by (cases m) simp_all

lemma no_wrap:
  assumes "unat bo + unat off + k \<le> length buf" "length (buf :: byte list) < 2 ^ 32"
  shows "unat ((bo :: u32) + off) = unat bo + unat off"
proof -
  have "unat bo + unat off < 2 ^ LENGTH(32)" using assms by simp
  then show ?thesis by (simp only: unat_add_lem)
qed

lemma ld_u32_range: "ld_u32 buf p = Inr v \<Longrightarrow> p + 4 \<le> length buf"
  by (simp add: ld_u32_def split: if_splits)

lemma ld_u16_range: "ld_u16 buf p = Inr v \<Longrightarrow> p + 2 \<le> length buf"
  by (simp add: ld_u16_def split: if_splits)

lemma readUint32_ld:
  "ld_u32 buf p = Inr v \<Longrightarrow>
   readUint32 \<lparr>stream_data = buf, stream_pos = p\<rparr> = Inr (v, \<lparr>stream_data = buf, stream_pos = p + 4\<rparr>)"
  by (simp add: ld_u32_def readUint32_def split: if_splits)

lemma readUint16_ld:
  "ld_u16 buf p = Inr v \<Longrightarrow>
   readUint16 \<lparr>stream_data = buf, stream_pos = p\<rparr> = Inr (v, \<lparr>stream_data = buf, stream_pos = p + 2\<rparr>)"
  by (simp add: ld_u16_def readUint16_def split: if_splits)

lemma seek_set [simp]:
  "seek \<lparr>stream_data = buf, stream_pos = p\<rparr> q SEEK_SET = \<lparr>stream_data = buf, stream_pos = q\<rparr>"
  by (simp add: seek_def)

lemma seek_cur [simp]:
  "seek \<lparr>stream_data = buf, stream_pos = p\<rparr> d SEEK_CUR = \<lparr>stream_data = buf, stream_pos = p + d\<rparr>"
  by (simp add: seek_def)

lemma readChunkInfo_ld:
  assumes "ld_u32 buf cd = Inr nx" "ld_u32 buf (cd + 4) = Inr pr"
    "ld_u16 buf (cd + 8) = Inr n" "ld_u32 buf (cd + 12) = Inr eo"
    "unat (bo + off) = cd"
  shows "readChunkInfo \<lparr>stream_data = buf, stream_pos = p\<rparr> bo off =
    Inr (\<lparr>chunk_next_offset = nx, chunk_primitive_type = pr, chunk_num_elements = n,
           chunk_elements_offset = eo\<rparr>, \<lparr>stream_data = buf, stream_pos = cd + 16\<rparr>)"
proof -
  have e: "cd + 4 + 4 = cd + 8" "cd + 8 + 2 + 2 = cd + 12" "cd + 12 + 4 = cd + 16" by simp_all
  note r = readUint32_ld [OF assms(1)] readUint32_ld [OF assms(2)]
    readUint16_ld [OF assms(3)] readUint32_ld [OF assms(4)]
  show ?thesis
    unfolding readChunkInfo_def Let_def assms(5)
    by (simp only: r e ebind_Inr prod.case seek_set seek_cur)
qed

lemma readMeshInfo_ld:
  assumes "ld_u32 buf m = Inr nx" "ld_u32 buf (m + 8) = Inr mat"
    "ld_u32 buf (m + 12) = Inr vt" "ld_u32 buf (m + 28) = Inr vb" "ld_u32 buf (m + 48) = Inr co"
    "unat (bo + off) = m"
  shows "readMeshInfo \<lparr>stream_data = buf, stream_pos = p\<rparr> bo off =
    Inr (\<lparr>mesh_next_offset = nx, mesh_material_idx = mat, mesh_vertex_type = vt,
           mesh_vertex_block_idx = vb, mesh_chunk_offset = co\<rparr>,
         \<lparr>stream_data = buf, stream_pos = m + 52\<rparr>)"
proof -
  have e: "m + 4 + 4 = m + 8" "m + 8 + 4 = m + 12" "m + 12 + 4 + 3 * 4 = m + 28"
    "m + 28 + 4 + 4 * 4 = m + 48" "m + 48 + 4 = m + 52" by simp_all
  note r = readUint32_ld [OF assms(1)] readUint32_ld [OF assms(2)]
    readUint32_ld [OF assms(3)] readUint32_ld [OF assms(4)] readUint32_ld [OF assms(5)]
  show ?thesis
    unfolding readMeshInfo_def Let_def assms(6)
    by (simp only: r e ebind_Inr prod.case seek_set seek_cur)
qed

lemma u16_array_step:
  "p + 2 \<le> length buf \<Longrightarrow>
   u16_array (take (Suc k * 2) (drop p buf)) =
     le16 (buf ! p) (buf ! (p + 1)) # u16_array (take (k * 2) (drop (p + 2) buf))"
proof -
  assume a: "p + 2 \<le> length buf"
  then have "drop p buf = buf ! p # buf ! (p + 1) # drop (p + 2) buf"
    by (metis Cons_nth_drop_Suc Suc_eq_plus1 add_2_eq_Suc' add_lessD1 less_add_one
        add_Suc_right le_iff_add less_iff_Suc_add nat_1_add_1 Suc_le_eq)
  then show ?thesis by simp
qed

lemma read_elements_bulk:
  "p + k * 2 \<le> length buf \<Longrightarrow>
   read_elements k \<lparr>stream_data = buf, stream_pos = p\<rparr> acc =
     Inr (acc @ u16_array (take (k * 2) (drop p buf)), \<lparr>stream_data = buf, stream_pos = p + k * 2\<rparr>)"
proof (induction k arbitrary: p acc)
  case 0
  then show ?case by simp
next
  case (Suc k)
  then have r: "p + 2 \<le> length buf" and r2: "(p + 2) + k * 2 \<le> length buf" by simp_all
  have "readUint16 \<lparr>stream_data = buf, stream_pos = p\<rparr> =
      Inr (le16 (buf ! p) (buf ! (p + 1)), \<lparr>stream_data = buf, stream_pos = p + 2\<rparr>)"
    using r by (simp add: readUint16_def)
  then show ?case
    using Suc.IH [OF r2] u16_array_step [OF r, of k] by (simp add: add.assoc)
qed

lemma OFFSET_nonzero:
  "(off \<noteq> 0 \<and> OFFSET body off \<noteq> 0) = (off \<noteq> 0)"
  "(off \<noteq> 0 \<and> 0 < OFFSET body off) = (off \<noteq> 0)"
  by (auto simp add: OFFSET_def unat_eq_0)

lemma hgp_chunks_step:
  assumes "ld_u32 buf (mesh + 8) = Inr mat" "chunk_at buf cd c"
  shows "hgp_chunks (Suc fuel) buf body mesh vbi tr cd cs =
     ebind (memcpy_from buf (OFFSET body (chunk_elements_offset c))
              (unat (chunk_num_elements c) * 2)) (\<lambda>bytes.
       if chunk_next_offset c \<noteq> 0
       then hgp_chunks fuel buf body mesh vbi tr (OFFSET body (chunk_next_offset c))
              (cs @ [emit_chunk vbi mat tr c (u16_array bytes)])
       else Inr (cs @ [emit_chunk vbi mat tr c (u16_array bytes)]))"
  using assms by (simp add: chunk_at_def emit_chunk_def OFFSET_nonzero Let_def cong: if_cong)

lemma hgp_chunks_fields:
  assumes "hgp_chunks fuel buf body mesh vbi tr cd cs = Inr cs'"
  shows "\<exists>c mat. chunk_at buf cd c \<and> ld_u32 buf (mesh + 8) = Inr mat"
proof (cases fuel)
  case 0
  with assms show ?thesis by simp
next
  case (Suc k)
  with assms obtain mat pr n eo bytes nx where
    "ld_u32 buf (mesh + 8) = Inr mat" "ld_u32 buf (cd + 4) = Inr pr"
    "ld_u16 buf (cd + 8) = Inr n" "ld_u32 buf (cd + 12) = Inr eo" "ld_u32 buf cd = Inr nx"
    by (auto simp: ebind_eq_Inr Let_def)
  then have "chunk_at buf cd \<lparr>chunk_next_offset = nx, chunk_primitive_type = pr,
      chunk_num_elements = n, chunk_elements_offset = eo\<rparr> \<and> ld_u32 buf (mesh + 8) = Inr mat"
    by (simp add: chunk_at_def)
  then show ?thesis by blast
qed

lemma lsw_chunks_step:
  assumes "OFFSET (unat bo) (chunk_elements_offset c) + unat (chunk_num_elements c) * 2 \<le> length buf"
    "unat (bo + chunk_elements_offset c) = OFFSET (unat bo) (chunk_elements_offset c)"
  shows "lsw_chunks (Suc fuel) bo vbi m tr c \<lparr>stream_data = buf, stream_pos = p\<rparr> cs =
     (let e = OFFSET (unat bo) (chunk_elements_offset c); k = unat (chunk_num_elements c);
          cs' = cs @ [emit_chunk vbi (mesh_material_idx m) tr c (u16_array (take (k * 2) (drop e buf)))]
      in if chunk_next_offset c \<noteq> 0
         then ebind (readChunkInfo \<lparr>stream_data = buf, stream_pos = e + k * 2\<rparr> bo (chunk_next_offset c))
                (\<lambda>(c', s3). lsw_chunks fuel bo vbi m tr c' s3 cs')
         else Inr (cs', \<lparr>stream_data = buf, stream_pos = e + k * 2\<rparr>))"
  using assms by (simp add: read_elements_bulk emit_chunk_def Let_def cong: if_cong)

lemma chunks_refine:
  assumes len: "length buf < 2 ^ 32"
  shows "hgp_chunks fuel buf (unat bo) mesh vbi tr cd cs = Inr cs' \<Longrightarrow>
     ld_u32 buf (mesh + 8) = Inr (mesh_material_idx m) \<Longrightarrow> chunk_at buf cd c \<Longrightarrow>
     \<exists>p'. lsw_chunks fuel bo vbi m tr c \<lparr>stream_data = buf, stream_pos = p\<rparr> cs =
            Inr (cs', \<lparr>stream_data = buf, stream_pos = p'\<rparr>)"
proof (induction fuel arbitrary: cd c cs p)
  case 0
  then show ?case by simp
next
  case (Suc fuel)
  let ?e = "OFFSET (unat bo) (chunk_elements_offset c)"
  let ?k = "unat (chunk_num_elements c)"
  let ?cs1 = "cs @ [emit_chunk vbi (mesh_material_idx m) tr c (u16_array (take (?k * 2) (drop ?e buf)))]"
  from Suc.prems obtain bytes where
    cp: "memcpy_from buf ?e (?k * 2) = Inr bytes" and
    rest: "(if chunk_next_offset c \<noteq> 0
       then hgp_chunks fuel buf (unat bo) mesh vbi tr (OFFSET (unat bo) (chunk_next_offset c))
              (cs @ [emit_chunk vbi (mesh_material_idx m) tr c (u16_array bytes)])
       else Inr (cs @ [emit_chunk vbi (mesh_material_idx m) tr c (u16_array bytes)])) = Inr cs'"
    by (auto simp: hgp_chunks_step ebind_eq_Inr simp del: hgp_chunks.simps)
  from cp have rng: "?e + ?k * 2 \<le> length buf" and b: "bytes = take (?k * 2) (drop ?e buf)"
    by (auto simp: memcpy_from_def split: if_splits)
  have nw: "unat (bo + chunk_elements_offset c) = ?e"
    unfolding OFFSET_def using rng len by (intro no_wrap [of _ _ "?k * 2"]) (simp_all add: OFFSET_def)
  note step = lsw_chunks_step [OF rng nw, of fuel vbi m tr p cs]
  show ?case
  proof (cases "chunk_next_offset c = 0")
    case True
    with rest b have "cs' = ?cs1" by simp
    with True step show ?thesis by (simp add: Let_def del: lsw_chunks.simps)
  next
    case False
    let ?cd' = "OFFSET (unat bo) (chunk_next_offset c)"
    from False rest b have run: "hgp_chunks fuel buf (unat bo) mesh vbi tr ?cd' ?cs1 = Inr cs'"
      by simp
    from hgp_chunks_fields [OF run] obtain c' where c': "chunk_at buf ?cd' c'" by blast
    then have "unat bo + unat (chunk_next_offset c) + 4 \<le> length buf"
      using ld_u32_range [of buf ?cd'] by (simp add: chunk_at_def OFFSET_def)
    then have nw': "unat (bo + chunk_next_offset c) = ?cd'"
      unfolding OFFSET_def using len by (rule no_wrap)
    have rd: "readChunkInfo \<lparr>stream_data = buf, stream_pos = ?e + ?k * 2\<rparr> bo (chunk_next_offset c) =
        Inr (c', \<lparr>stream_data = buf, stream_pos = ?cd' + 16\<rparr>)"
      using c' readChunkInfo_ld [OF _ _ _ _ nw', of buf "chunk_next_offset c'"
          "chunk_primitive_type c'" "chunk_num_elements c'" "chunk_elements_offset c'"]
      by (simp add: chunk_at_def)
    from Suc.IH [OF run Suc.prems(2) c', of "?cd' + 16"] obtain p' where
      "lsw_chunks fuel bo vbi m tr c' \<lparr>stream_data = buf, stream_pos = ?cd' + 16\<rparr> ?cs1 =
         Inr (cs', \<lparr>stream_data = buf, stream_pos = p'\<rparr>)" by blast
    with False step rd show ?thesis by (simp add: Let_def del: lsw_chunks.simps)
  qed
qed

lemma hgp_meshes_step:
  assumes "mesh_at buf mesh m"
  shows "hgp_meshes cf (Suc fuel) buf body tr mesh st =
     ebind (set_stride (vertexBuffers st) (sint (mesh_vertex_block_idx m - 1))
              (fst (vertex_stride (mesh_vertex_type m)))) (\<lambda>vbs.
     ebind (hgp_chunks cf buf body mesh (sint (mesh_vertex_block_idx m - 1)) tr
              (OFFSET body (mesh_chunk_offset m)) (model_chunks st)) (\<lambda>cs.
       if mesh_next_offset m \<noteq> 0
       then hgp_meshes cf fuel buf body tr (OFFSET body (mesh_next_offset m))
              \<lparr> model_chunks = cs, vertexBuffers = vbs,
                stderr_log = stderr_log st @ snd (vertex_stride (mesh_vertex_type m)) \<rparr>
       else Inr \<lparr> model_chunks = cs, vertexBuffers = vbs,
                  stderr_log = stderr_log st @ snd (vertex_stride (mesh_vertex_type m)) \<rparr>))"
  using assms
  by (simp add: mesh_at_def OFFSET_nonzero Let_def split_beta cong: if_cong)

lemma lsw_meshes_step:
  "lsw_meshes cf (Suc fuel) bo tr m s st =
     ebind (set_stride (vertexBuffers st) (sint (mesh_vertex_block_idx m - 1))
              (fst (vertex_stride (mesh_vertex_type m)))) (\<lambda>vbs.
     ebind (readChunkInfo s bo (mesh_chunk_offset m)) (\<lambda>(c, s1).
     ebind (lsw_chunks cf bo (sint (mesh_vertex_block_idx m - 1)) m tr c s1 (model_chunks st))
       (\<lambda>(cs, s2).
       if mesh_next_offset m \<noteq> 0
       then ebind (readMeshInfo s2 bo (mesh_next_offset m)) (\<lambda>(m', s3).
              lsw_meshes cf fuel bo tr m' s3
                \<lparr> model_chunks = cs, vertexBuffers = vbs,
                  stderr_log = stderr_log st @ snd (vertex_stride (mesh_vertex_type m)) \<rparr>)
       else Inr (\<lparr> model_chunks = cs, vertexBuffers = vbs,
                   stderr_log = stderr_log st @ snd (vertex_stride (mesh_vertex_type m)) \<rparr>, s2))))"
  by (simp add: Let_def split_beta cong: if_cong)

lemma hgp_meshes_fields:
  assumes "hgp_meshes cf fuel buf body tr mesh st = Inr st'"
  shows "\<exists>m. mesh_at buf mesh m"
proof (cases fuel)
  case 0
  with assms show ?thesis by simp
next
  case (Suc k)
  with assms obtain vt vb co cs nx vbs where
    f: "ld_u32 buf (mesh + 12) = Inr vt" "ld_u32 buf (mesh + 28) = Inr vb"
       "ld_u32 buf (mesh + 48) = Inr co" "ld_u32 buf mesh = Inr nx" and
    c: "hgp_chunks cf buf body mesh (sint (vb - 1)) tr (OFFSET body co) (model_chunks st) = Inr cs"
    by (auto simp: ebind_eq_Inr Let_def split_beta)
  from hgp_chunks_fields [OF c] obtain mat where "ld_u32 buf (mesh + 8) = Inr mat" by blast
  with f have "mesh_at buf mesh \<lparr>mesh_next_offset = nx, mesh_material_idx = mat,
      mesh_vertex_type = vt, mesh_vertex_block_idx = vb, mesh_chunk_offset = co\<rparr>"
    by (simp add: mesh_at_def)
  then show ?thesis by blast
qed

lemma meshes_refine:
  assumes len: "length buf < 2 ^ 32"
  shows "hgp_meshes cf fuel buf (unat bo) tr mesh st = Inr st' \<Longrightarrow> mesh_at buf mesh m \<Longrightarrow>
     \<exists>p'. lsw_meshes cf fuel bo tr m \<lparr>stream_data = buf, stream_pos = p\<rparr> st =
            Inr (st', \<lparr>stream_data = buf, stream_pos = p'\<rparr>)"
proof (induction fuel arbitrary: mesh m st p)
  case 0
  then show ?case by simp
next
  case (Suc fuel)
  let ?vbi = "sint (mesh_vertex_block_idx m - 1)"
  let ?cd = "OFFSET (unat bo) (mesh_chunk_offset m)"
  let ?log = "stderr_log st @ snd (vertex_stride (mesh_vertex_type m))"
  from Suc.prems obtain vbs cs where
    vbs: "set_stride (vertexBuffers st) ?vbi (fst (vertex_stride (mesh_vertex_type m))) = Inr vbs" and
    cs: "hgp_chunks cf buf (unat bo) mesh ?vbi tr ?cd (model_chunks st) = Inr cs" and
    rest: "(if mesh_next_offset m \<noteq> 0
       then hgp_meshes cf fuel buf (unat bo) tr (OFFSET (unat bo) (mesh_next_offset m))
              \<lparr> model_chunks = cs, vertexBuffers = vbs, stderr_log = ?log \<rparr>
       else Inr \<lparr> model_chunks = cs, vertexBuffers = vbs, stderr_log = ?log \<rparr>) = Inr st'"
    by (auto simp: hgp_meshes_step ebind_eq_Inr simp del: hgp_meshes.simps)
  from hgp_chunks_fields [OF cs] obtain c where c: "chunk_at buf ?cd c" by blast
  then have "unat bo + unat (mesh_chunk_offset m) + 4 \<le> length buf"
    using ld_u32_range [of buf ?cd] by (simp add: chunk_at_def OFFSET_def)
  then have nw: "unat (bo + mesh_chunk_offset m) = ?cd"
    unfolding OFFSET_def using len by (rule no_wrap)
  have rc: "readChunkInfo \<lparr>stream_data = buf, stream_pos = p\<rparr> bo (mesh_chunk_offset m) =
      Inr (c, \<lparr>stream_data = buf, stream_pos = ?cd + 16\<rparr>)"
    using c readChunkInfo_ld [OF _ _ _ _ nw, of buf "chunk_next_offset c"
        "chunk_primitive_type c" "chunk_num_elements c" "chunk_elements_offset c"]
    by (simp add: chunk_at_def)
  have mat: "ld_u32 buf (mesh + 8) = Inr (mesh_material_idx m)"
    using Suc.prems(2) by (simp add: mesh_at_def)
  from chunks_refine [OF len cs mat c, of "?cd + 16"] obtain p1 where
    lc: "lsw_chunks cf bo ?vbi m tr c \<lparr>stream_data = buf, stream_pos = ?cd + 16\<rparr> (model_chunks st) =
       Inr (cs, \<lparr>stream_data = buf, stream_pos = p1\<rparr>)" by blast
  note step = lsw_meshes_step [of cf fuel bo tr m "\<lparr>stream_data = buf, stream_pos = p\<rparr>" st]
  show ?case
  proof (cases "mesh_next_offset m = 0")
    case True
    with rest have "st' = \<lparr> model_chunks = cs, vertexBuffers = vbs, stderr_log = ?log \<rparr>" by simp
    with True step vbs rc lc show ?thesis by (simp del: lsw_meshes.simps)
  next
    case False
    let ?mesh' = "OFFSET (unat bo) (mesh_next_offset m)"
    let ?st1 = "\<lparr> model_chunks = cs, vertexBuffers = vbs, stderr_log = ?log \<rparr>"
    from False rest have run: "hgp_meshes cf fuel buf (unat bo) tr ?mesh' ?st1 = Inr st'" by simp
    from hgp_meshes_fields [OF run] obtain m' where m': "mesh_at buf ?mesh' m'" by blast
    then have "unat bo + unat (mesh_next_offset m) + 4 \<le> length buf"
      using ld_u32_range [of buf ?mesh'] by (simp add: mesh_at_def OFFSET_def)
    then have nw': "unat (bo + mesh_next_offset m) = ?mesh'"
      unfolding OFFSET_def using len by (rule no_wrap)
    have rm: "readMeshInfo \<lparr>stream_data = buf, stream_pos = p1\<rparr> bo (mesh_next_offset m) =
        Inr (m', \<lparr>stream_data = buf, stream_pos = ?mesh' + 52\<rparr>)"
      using m' readMeshInfo_ld [OF _ _ _ _ _ nw', of buf "mesh_next_offset m'"
          "mesh_material_idx m'" "mesh_vertex_type m'" "mesh_vertex_block_idx m'"
          "mesh_chunk_offset m'"]
      by (simp add: mesh_at_def)
    from Suc.IH [OF run m', of "?mesh' + 52"] obtain p' where
      "lsw_meshes cf fuel bo tr m' \<lparr>stream_data = buf, stream_pos = ?mesh' + 52\<rparr> ?st1 =
         Inr (st', \<lparr>stream_data = buf, stream_pos = p'\<rparr>)" by blast
    with False step vbs rc lc rm show ?thesis by (simp del: lsw_meshes.simps)
  qed
qed

lemma processMesh_refine:
  assumes len: "length buf < 2 ^ 32"
    and run: "hgp_processMesh fuel buf (unat bo) mho tr st = Inr st'"
  shows "\<exists>p'. lsw_processMesh fuel \<lparr>stream_data = buf, stream_pos = p\<rparr> bo mho tr st =
            Inr (st', \<lparr>stream_data = buf, stream_pos = p'\<rparr>)"
proof (cases "mho = 0")
  case True
  with run show ?thesis by (simp add: hgp_processMesh_def lsw_processMesh_def)
next
  case False
  let ?h = "OFFSET (unat bo) mho"
  from False run obtain mo where
    mo: "ld_u32 buf (?h + 12) = Inr mo" and
    rest: "(if mo = 0 then Inr st
            else hgp_meshes fuel fuel buf (unat bo) tr (OFFSET (unat bo) mo) st) = Inr st'"
    by (auto simp: hgp_processMesh_def ebind_eq_Inr)
  have "unat bo + unat mho + 16 \<le> length buf"
    using ld_u32_range [OF mo] by (simp add: OFFSET_def)
  then have nw: "unat (bo + mho) = ?h"
    unfolding OFFSET_def using len by (rule no_wrap)
  have rh: "readUint32 \<lparr>stream_data = buf, stream_pos = ?h + 3 * 4\<rparr> =
      Inr (mo, \<lparr>stream_data = buf, stream_pos = ?h + 12 + 4\<rparr>)"
    using readUint32_ld [OF mo] by simp
  show ?thesis
  proof (cases "mo = 0")
    case True
    with rest have "st' = st" by simp
    with True False rh nw show ?thesis
      by (simp add: lsw_processMesh_def Let_def)
  next
    case mo0: False
    let ?mesh = "OFFSET (unat bo) mo"
    from mo0 rest have run': "hgp_meshes fuel fuel buf (unat bo) tr ?mesh st = Inr st'" by simp
    from hgp_meshes_fields [OF run'] obtain m where m: "mesh_at buf ?mesh m" by blast
    then have "unat bo + unat mo + 4 \<le> length buf"
      using ld_u32_range [of buf ?mesh] by (simp add: mesh_at_def OFFSET_def)
    then have nw': "unat (bo + mo) = ?mesh"
      unfolding OFFSET_def using len by (rule no_wrap)
    have rm: "readMeshInfo \<lparr>stream_data = buf, stream_pos = ?h + 12 + 4\<rparr> bo mo =
        Inr (m, \<lparr>stream_data = buf, stream_pos = ?mesh + 52\<rparr>)"
      using m readMeshInfo_ld [OF _ _ _ _ _ nw', of buf "mesh_next_offset m"
          "mesh_material_idx m" "mesh_vertex_type m" "mesh_vertex_block_idx m"
          "mesh_chunk_offset m"]
      by (simp add: mesh_at_def)
    from meshes_refine [OF len run' m, of "?mesh + 52"] obtain p' where
      "lsw_meshes fuel fuel bo tr m \<lparr>stream_data = buf, stream_pos = ?mesh + 52\<rparr> st =
         Inr (st', \<lparr>stream_data = buf, stream_pos = p'\<rparr>)" by blast
    with mo0 False rh nw rm show ?thesis
      by (simp add: lsw_processMesh_def Let_def)
  qed
qed

section \<open>The two traversals agree\<close>

text \<open>
  Claim C3. On a well-formed input the bulk-buffer traversal and the streaming seek/read
  traversal produce the same result. Well-formed: the image is shorter than 4 GiB and the
  bulk traversal, which has no bounds checks, stays inside the buffer and returns. Then the
  streaming traversal over the same bytes, entered with the same mesh-header offset,
  transform and vertex buffers, returns the same chunk list, the same vertex buffers (with
  their strides) and the same diagnostics.
\<close>

theorem processMesh_strategies_agree:
  assumes "length buf < 2 ^ 32"
    and "hgp_processMesh fuel buf (unat body_offset) mesh_header_offset transform st = Inr st'"
  shows "\<exists>stream'. lsw_processMesh fuel \<lparr>stream_data = buf, stream_pos = p\<rparr> body_offset
            mesh_header_offset transform st = Inr (st', stream')"
  using processMesh_refine [OF assms] by blast

lemma file1_length: "length file1 = 140"
  by (simp add: file1_def u32le_def u16le_def)

lemma file1_bulk:
  "hgp_processMesh 5 file1 48 0x18 (7::nat) st0 =
     Inr \<lparr>model_chunks =
            [\<lparr>vertex_buffer_idx = 0, material_idx = 7, primitive_type = 4, num_elements = 3,
              transformation = 7, element_buffer = [0, 1, 2]\<rparr>],
          vertexBuffers = [\<lparr>vb_size = 0, vb_data = [], stride = 36\<rparr>],
          stderr_log = []\<rparr>"
  by code_simp

theorem processMesh_strategies_agree_witness:
  "length file1 < 2 ^ 32 \<and>
   hgp_processMesh 5 file1 (unat (48 :: u32)) 0x18 (7::nat) st0 =
     Inr \<lparr>model_chunks =
            [\<lparr>vertex_buffer_idx = 0, material_idx = 7, primitive_type = 4, num_elements = 3,
              transformation = 7, element_buffer = [0, 1, 2]\<rparr>],
          vertexBuffers = [\<lparr>vb_size = 0, vb_data = [], stride = 36\<rparr>],
          stderr_log = []\<rparr> \<and>
   (\<exists>stream'. lsw_processMesh 5 \<lparr>stream_data = file1, stream_pos = 0\<rparr> 48 0x18 (7::nat) st0 =
     Inr (\<lparr>model_chunks =
            [\<lparr>vertex_buffer_idx = 0, material_idx = 7, primitive_type = 4, num_elements = 3,
              transformation = 7, element_buffer = [0, 1, 2]\<rparr>],
          vertexBuffers = [\<lparr>vb_size = 0, vb_data = [], stride = 36\<rparr>],
          stderr_log = []\<rparr>, stream'))"
proof -
  have a: "length file1 < 2 ^ 32" by (simp add: file1_length)
  have b: "hgp_processMesh 5 file1 (unat (48 :: u32)) 0x18 (7::nat) st0 =
     Inr \<lparr>model_chunks =
            [\<lparr>vertex_buffer_idx = 0, material_idx = 7, primitive_type = 4, num_elements = 3,
              transformation = 7, element_buffer = [0, 1, 2]\<rparr>],
          vertexBuffers = [\<lparr>vb_size = 0, vb_data = [], stride = 36\<rparr>],
          stderr_log = []\<rparr>"
    using file1_bulk by simp
  from processMesh_strategies_agree [OF a b, of 0] a b show ?thesis by blast
qed

section \<open>A null header or a null mesh offset\<close>

text \<open>
  Claim C10. A call of the mesh walker with mesh-header offset 0, or whose mesh header holds
  mesh offset 0, returns without appending a chunk and without touching a vertex buffer: the
  chunk list and the vertex buffers are exactly as before the call. Both walkers.
\<close>

theorem processMesh_null_is_noop:
  "hgp_processMesh fuel buf body 0 transform st = Inr st \<and>
   lsw_processMesh fuel stream body_offset 0 transform st = Inr (st, stream) \<and>
   (ld_u32 buf (OFFSET body mesh_header_offset + 12) = Inr 0 \<longrightarrow>
      hgp_processMesh fuel buf body mesh_header_offset transform st = Inr st) \<and>
   (readUint32 (seek (seek stream (unat (body_offset + mesh_header_offset)) SEEK_SET) (3 * 4) SEEK_CUR)
        = Inr (0, stream') \<longrightarrow>
      (\<exists>s. lsw_processMesh fuel stream body_offset mesh_header_offset transform st = Inr (st, s)))"
  by (simp add: hgp_processMesh_def lsw_processMesh_def Let_def)

lemma file1_header_null:
  "ld_u32 file1 (OFFSET 48 0x0C + 12) = Inr 0"
  by code_simp

lemma file1_header_null_stream:
  "readUint32 (seek (seek \<lparr>stream_data = file1, stream_pos = 0\<rparr> (unat ((48 :: u32) + 0x0C)) SEEK_SET)
      (3 * 4) SEEK_CUR) = Inr (0, \<lparr>stream_data = file1, stream_pos = 76\<rparr>)"
  by code_simp

theorem processMesh_null_is_noop_witness:
  "ld_u32 file1 (OFFSET 48 0x0C + 12) = Inr 0 \<and>
   hgp_processMesh 5 file1 48 0x0C (7::nat) st0 = Inr st0 \<and>
   readUint32 (seek (seek \<lparr>stream_data = file1, stream_pos = 0\<rparr> (unat ((48 :: u32) + 0x0C)) SEEK_SET)
      (3 * 4) SEEK_CUR) = Inr (0, \<lparr>stream_data = file1, stream_pos = 76\<rparr>) \<and>
   (\<exists>s. lsw_processMesh 5 \<lparr>stream_data = file1, stream_pos = 0\<rparr> 48 0x0C (7::nat) st0 = Inr (st0, s))"
  using processMesh_null_is_noop [of 5 file1 48 "7::nat" st0
      "\<lparr>stream_data = file1, stream_pos = 0\<rparr>" 48 "0x0C"
      "\<lparr>stream_data = file1, stream_pos = 76\<rparr>"]
    file1_header_null file1_header_null_stream
  by blast

lemma chunk_at_fields:
  "p + 16 \<le> length buf \<Longrightarrow> chunk_at buf p (chunk_fields buf p)"
  by (simp add: chunk_at_def chunk_fields_def ld_u32_def ld_u16_def)

lemma chunk_at_unique: "chunk_at buf p c \<Longrightarrow> c = chunk_fields buf p"
  by (cases c) (auto simp: chunk_at_def chunk_fields_def ld_u32_def ld_u16_def split: if_splits)

lemma source_elements_Suc:
  "source_elements buf e (Suc k) =
     le16 (buf ! e) (buf ! (e + 1)) # source_elements buf (e + 2) k"
proof -
  have "[0..<Suc k] = 0 # map Suc [0..<k]"
    by (simp add: upt_conv_Cons map_Suc_upt del: upt_Suc)
  then show ?thesis
    by (simp add: source_elements_def comp_def add.assoc del: upt_Suc)
qed

lemma u16_array_source:
  "e + k * 2 \<le> length buf \<Longrightarrow> u16_array (take (k * 2) (drop e buf)) = source_elements buf e k"
proof (induction k arbitrary: e)
  case 0
  then show ?case by (simp add: source_elements_def)
next
  case (Suc k)
  then have r: "e + 2 \<le> length buf" and r2: "(e + 2) + k * 2 \<le> length buf" by simp_all
  show ?case
    using u16_array_step [OF r, of k] Suc.IH [OF r2] by (simp add: source_elements_Suc)
qed

lemma hgp_chunks_one:
  assumes "chunk_in_range buf body off" "ld_u32 buf (mesh + 8) = Inr mat"
  shows "hgp_chunks (Suc fuel) buf body mesh vbi tr (OFFSET body off) cs =
     (let nx = chunk_next_offset (chunk_fields buf (OFFSET body off))
      in if nx \<noteq> 0
         then hgp_chunks fuel buf body mesh vbi tr (OFFSET body nx)
                (cs @ [expected_chunk buf body vbi mat tr off])
         else Inr (cs @ [expected_chunk buf body vbi mat tr off]))"
proof -
  let ?p = "OFFSET body off"
  let ?c = "chunk_fields buf ?p"
  have at: "chunk_at buf ?p ?c"
    using assms(1) by (simp add: chunk_in_range_def Let_def chunk_at_fields)
  have rng: "OFFSET body (chunk_elements_offset ?c) + unat (chunk_num_elements ?c) * 2 \<le> length buf"
    using assms(1) by (simp add: chunk_in_range_def Let_def mult.commute)
  then have "memcpy_from buf (OFFSET body (chunk_elements_offset ?c)) (unat (chunk_num_elements ?c) * 2)
      = Inr (take (unat (chunk_num_elements ?c) * 2) (drop (OFFSET body (chunk_elements_offset ?c)) buf))"
    by (simp add: memcpy_from_def)
  then show ?thesis
    unfolding hgp_chunks_step [OF assms(2) at]
    by (simp add: u16_array_source [OF rng] expected_chunk_def Let_def cong: if_cong)
qed

lemma hgp_chunks_chain:
  "chunk_chain buf body offs \<Longrightarrow> list_all (chunk_in_range buf body) offs \<Longrightarrow>
   length offs \<le> fuel \<Longrightarrow> ld_u32 buf (mesh + 8) = Inr mat \<Longrightarrow>
   hgp_chunks fuel buf body mesh vbi tr (OFFSET body (hd offs)) cs =
     Inr (cs @ map (expected_chunk buf body vbi mat tr) offs)"
proof (induction buf body offs arbitrary: fuel cs rule: chunk_chain.induct)
  case (1 buf body)
  then show ?case by simp
next
  case (2 buf body off)
  then obtain k where k: "fuel = Suc k" by (cases fuel) auto
  from 2 show ?case
    unfolding k by (simp add: hgp_chunks_one Let_def del: hgp_chunks.simps)
next
  case (3 buf body off off' offs)
  then obtain k where k: "fuel = Suc k" by (cases fuel) auto
  from 3 have ih: "hgp_chunks k buf body mesh vbi tr (OFFSET body off')
        (cs @ [expected_chunk buf body vbi mat tr off]) =
      Inr ((cs @ [expected_chunk buf body vbi mat tr off]) @
           map (expected_chunk buf body vbi mat tr) (off' # offs))"
    unfolding k by (auto simp del: hgp_chunks.simps)
  from 3 ih show ?case
    unfolding k by (simp add: hgp_chunks_one Let_def del: hgp_chunks.simps)
qed

lemma expected_chunk_elements:
  "num_elements (expected_chunk buf body vbi mat tr off)
     = chunk_num_elements (chunk_fields buf (OFFSET body off))"
  "primitive_type (expected_chunk buf body vbi mat tr off)
     = chunk_primitive_type (chunk_fields buf (OFFSET body off))"
  "length (element_buffer (expected_chunk buf body vbi mat tr off))
     = unat (chunk_num_elements (chunk_fields buf (OFFSET body off)))"
  "j < unat (chunk_num_elements (chunk_fields buf (OFFSET body off))) \<Longrightarrow>
   element_buffer (expected_chunk buf body vbi mat tr off) ! j =
     le16 (buf ! (OFFSET body (chunk_elements_offset (chunk_fields buf (OFFSET body off))) + 2 * j))
          (buf ! (OFFSET body (chunk_elements_offset (chunk_fields buf (OFFSET body off))) + 2 * j + 1))"
  by (simp_all add: expected_chunk_def emit_chunk_def source_elements_def Let_def)

lemma lsw_chunks_chain:
  assumes "chunk_chain buf (unat bo) offs"
    and "list_all (chunk_in_range buf (unat bo)) offs"
    and "length offs \<le> fuel"
    and "length buf < 2 ^ 32"
    and "ld_u32 buf (mesh + 8) = Inr (mesh_material_idx m)"
  shows "\<exists>p'. lsw_chunks fuel bo vbi m tr (chunk_fields buf (OFFSET (unat bo) (hd offs)))
          \<lparr>stream_data = buf, stream_pos = p\<rparr> cs
        = Inr (cs @ map (expected_chunk buf (unat bo) vbi (mesh_material_idx m) tr) offs,
               \<lparr>stream_data = buf, stream_pos = p'\<rparr>)"
proof -
  have bulk: "hgp_chunks fuel buf (unat bo) mesh vbi tr (OFFSET (unat bo) (hd offs)) cs
      = Inr (cs @ map (expected_chunk buf (unat bo) vbi (mesh_material_idx m) tr) offs)"
    using assms(1,2,3,5) by (rule hgp_chunks_chain)
  from assms(1) obtain off rest where offs: "offs = off # rest" by (cases offs) auto
  with assms(2) have "OFFSET (unat bo) (hd offs) + 16 \<le> length buf"
    by (simp add: chunk_in_range_def Let_def)
  then have at: "chunk_at buf (OFFSET (unat bo) (hd offs)) (chunk_fields buf (OFFSET (unat bo) (hd offs)))"
    by (rule chunk_at_fields)
  from chunks_refine [OF assms(4) bulk assms(5) at, of p] show ?thesis .
qed

section \<open>Chunk chains\<close>

text \<open>
  Claim C2. A chunk chain of length N (N chunk records linked by \<open>next_offset\<close>, the last
  with \<open>next_offset = 0\<close>) yields exactly N output chunks, and each chunk's element buffer
  has the declared \<open>num_elements\<close> 16-bit entries, equal one by one to the source indices
  at the record's \<open>elements_offset\<close>. Both chunk loops, for records and index arrays that
  lie inside an image shorter than 4 GiB, given fuel for N iterations.
\<close>

theorem chunk_chain_emits_each_record:
  assumes "chunk_chain buf (unat bo) offs"
    and "list_all (chunk_in_range buf (unat bo)) offs"
    and "length offs \<le> fuel"
    and "length buf < 2 ^ 32"
    and "ld_u32 buf (mesh + 8) = Inr (mesh_material_idx m)"
  shows "\<exists>out p'.
      hgp_chunks fuel buf (unat bo) mesh vbi tr (OFFSET (unat bo) (hd offs)) cs = Inr (cs @ out) \<and>
      lsw_chunks fuel bo vbi m tr (chunk_fields buf (OFFSET (unat bo) (hd offs)))
          \<lparr>stream_data = buf, stream_pos = p\<rparr> cs
        = Inr (cs @ out, \<lparr>stream_data = buf, stream_pos = p'\<rparr>) \<and>
      length out = length offs \<and>
      (\<forall>i<length offs.
         num_elements (out ! i) = chunk_num_elements (chunk_fields buf (OFFSET (unat bo) (offs ! i))) \<and>
         length (element_buffer (out ! i)) = unat (num_elements (out ! i)) \<and>
         (\<forall>j<unat (num_elements (out ! i)).
            element_buffer (out ! i) ! j =
              le16 (buf ! (OFFSET (unat bo) (chunk_elements_offset
                              (chunk_fields buf (OFFSET (unat bo) (offs ! i)))) + 2 * j))
                   (buf ! (OFFSET (unat bo) (chunk_elements_offset
                              (chunk_fields buf (OFFSET (unat bo) (offs ! i)))) + 2 * j + 1))))"
proof -
  let ?out = "map (expected_chunk buf (unat bo) vbi (mesh_material_idx m) tr) offs"
  have bulk: "hgp_chunks fuel buf (unat bo) mesh vbi tr (OFFSET (unat bo) (hd offs)) cs
      = Inr (cs @ ?out)"
    using assms(1,2,3,5) by (rule hgp_chunks_chain)
  from lsw_chunks_chain [OF assms, of vbi tr p cs] obtain p' where
    str: "lsw_chunks fuel bo vbi m tr (chunk_fields buf (OFFSET (unat bo) (hd offs)))
            \<lparr>stream_data = buf, stream_pos = p\<rparr> cs
          = Inr (cs @ ?out, \<lparr>stream_data = buf, stream_pos = p'\<rparr>)" by blast
  have el: "\<forall>i<length offs.
         num_elements (?out ! i) = chunk_num_elements (chunk_fields buf (OFFSET (unat bo) (offs ! i))) \<and>
         length (element_buffer (?out ! i)) = unat (num_elements (?out ! i)) \<and>
         (\<forall>j<unat (num_elements (?out ! i)).
            element_buffer (?out ! i) ! j =
              le16 (buf ! (OFFSET (unat bo) (chunk_elements_offset
                              (chunk_fields buf (OFFSET (unat bo) (offs ! i)))) + 2 * j))
                   (buf ! (OFFSET (unat bo) (chunk_elements_offset
                              (chunk_fields buf (OFFSET (unat bo) (offs ! i)))) + 2 * j + 1)))"
    by (simp add: expected_chunk_elements)
  have "length ?out = length offs" by simp
  with bulk str el show ?thesis by blast
qed

lemma fixture_length: "length (fixture vt) = 224"
  by (simp add: fixture_def u32le_def u16le_def)

lemma fixture_chain: "chunk_chain (fixture 90) (unat (48 :: u32)) [0, 0x20]"
  by code_simp

lemma fixture_in_range: "list_all (chunk_in_range (fixture 90) (unat (48 :: u32))) [0, 0x20]"
  by code_simp

lemma fixture_material: "ld_u32 (fixture 90) (120 + 8) = Inr (mesh_material_idx mesh7)"
  by code_simp

theorem chunk_chain_emits_each_record_witness:
  "chunk_chain (fixture 90) (unat (48 :: u32)) [0, 0x20] \<and>
   list_all (chunk_in_range (fixture 90) (unat (48 :: u32))) [0, 0x20] \<and>
   length [0, 0x20 :: u32] \<le> 5 \<and> length (fixture 90) < 2 ^ 32 \<and>
   ld_u32 (fixture 90) (120 + 8) = Inr (mesh_material_idx mesh7) \<and>
   (\<exists>out p'.
      hgp_chunks 5 (fixture 90) (unat (48 :: u32)) 120 0 (7 :: nat)
          (OFFSET (unat (48 :: u32)) (hd [0, 0x20])) [] = Inr ([] @ out) \<and>
      lsw_chunks 5 48 0 mesh7 (7 :: nat)
          (chunk_fields (fixture 90) (OFFSET (unat (48 :: u32)) (hd [0, 0x20])))
          \<lparr>stream_data = fixture 90, stream_pos = 0\<rparr> []
        = Inr ([] @ out, \<lparr>stream_data = fixture 90, stream_pos = p'\<rparr>) \<and>
      length out = length [0, 0x20 :: u32])"
proof -
  have l: "length [0, 0x20 :: u32] \<le> 5" by simp
  have n: "length (fixture 90) < 2 ^ 32" by (simp add: fixture_length)
  from chunk_chain_emits_each_record [OF fixture_chain fixture_in_range l n fixture_material,
      where vbi = 0 and tr = "7 :: nat" and cs = "[]" and p = 0]
  obtain out p' where
    "hgp_chunks 5 (fixture 90) (unat (48 :: u32)) 120 0 (7 :: nat)
          (OFFSET (unat (48 :: u32)) (hd [0, 0x20])) [] = Inr ([] @ out)"
    "lsw_chunks 5 48 0 mesh7 (7 :: nat)
          (chunk_fields (fixture 90) (OFFSET (unat (48 :: u32)) (hd [0, 0x20])))
          \<lparr>stream_data = fixture 90, stream_pos = 0\<rparr> []
        = Inr ([] @ out, \<lparr>stream_data = fixture 90, stream_pos = p'\<rparr>)"
    "length out = length [0, 0x20 :: u32]"
    by blast
  with fixture_chain fixture_in_range l n fixture_material show ?thesis by blast
qed

section \<open>Every mesh record emits a chunk\<close>

lemma hgp_chunks_first:
  "hgp_chunks fuel buf body mesh vbi tr cd cs = Inr cs' \<Longrightarrow>
   \<exists>c mat rest. chunk_at buf cd c \<and> ld_u32 buf (mesh + 8) = Inr mat \<and>
     cs' = cs @ emit_chunk vbi mat tr c
                  (source_elements buf (OFFSET body (chunk_elements_offset c))
                     (unat (chunk_num_elements c))) # rest"
proof (induction fuel arbitrary: cd cs)
  case 0
  then show ?case by simp
next
  case (Suc fuel)
  from hgp_chunks_fields [OF Suc.prems] obtain c mat where
    c: "chunk_at buf cd c" and mat: "ld_u32 buf (mesh + 8) = Inr mat" by blast
  let ?e = "OFFSET body (chunk_elements_offset c)"
  let ?k = "unat (chunk_num_elements c)"
  let ?ch = "emit_chunk vbi mat tr c (source_elements buf ?e ?k)"
  from Suc.prems obtain bytes where
    cp: "memcpy_from buf ?e (?k * 2) = Inr bytes" and
    rest: "(if chunk_next_offset c \<noteq> 0
       then hgp_chunks fuel buf body mesh vbi tr (OFFSET body (chunk_next_offset c))
              (cs @ [emit_chunk vbi mat tr c (u16_array bytes)])
       else Inr (cs @ [emit_chunk vbi mat tr c (u16_array bytes)])) = Inr cs'"
    by (auto simp: hgp_chunks_step [OF mat c] ebind_eq_Inr simp del: hgp_chunks.simps)
  from cp have rng: "?e + ?k * 2 \<le> length buf" and b: "bytes = take (?k * 2) (drop ?e buf)"
    by (auto simp: memcpy_from_def split: if_splits)
  have u: "u16_array bytes = source_elements buf ?e ?k"
    unfolding b by (rule u16_array_source [OF rng])
  show ?case
  proof (cases "chunk_next_offset c = 0")
    case True
    with rest u have "cs' = cs @ ?ch # []" by simp
    with c mat show ?thesis by blast
  next
    case False
    with rest u have "hgp_chunks fuel buf body mesh vbi tr (OFFSET body (chunk_next_offset c))
        (cs @ [?ch]) = Inr cs'" by simp
    from Suc.IH [OF this] obtain r where "cs' = (cs @ [?ch]) @ r" by blast
    then have "cs' = cs @ ?ch # r" by simp
    with c mat show ?thesis by blast
  qed
qed

lemma lsw_chunks_unfold:
  "lsw_chunks (Suc fuel) bo vbi m tr c s cs =
     ebind (read_elements (unat (chunk_num_elements c))
              (seek s (unat (bo + chunk_elements_offset c)) SEEK_SET) []) (\<lambda>(elems, s2).
       if chunk_next_offset c \<noteq> 0
       then ebind (readChunkInfo s2 bo (chunk_next_offset c))
              (\<lambda>(c', s3). lsw_chunks fuel bo vbi m tr c' s3
                  (cs @ [emit_chunk vbi (mesh_material_idx m) tr c elems]))
       else Inr (cs @ [emit_chunk vbi (mesh_material_idx m) tr c elems], s2))"
  by (simp add: Let_def emit_chunk_def split_beta cong: if_cong)

lemma lsw_chunks_first:
  "lsw_chunks fuel bo vbi m tr c s cs = Inr (cs', s') \<Longrightarrow>
   \<exists>elems rest. cs' = cs @ emit_chunk vbi (mesh_material_idx m) tr c elems # rest"
proof (induction fuel arbitrary: c s cs)
  case 0
  then show ?case by simp
next
  case (Suc fuel)
  from Suc.prems obtain x where
    "(case x of (elems, s2) \<Rightarrow>
       if chunk_next_offset c \<noteq> 0
       then ebind (readChunkInfo s2 bo (chunk_next_offset c))
              (\<lambda>(c', s3). lsw_chunks fuel bo vbi m tr c' s3
                  (cs @ [emit_chunk vbi (mesh_material_idx m) tr c elems]))
       else Inr (cs @ [emit_chunk vbi (mesh_material_idx m) tr c elems], s2)) = Inr (cs', s')"
    unfolding lsw_chunks_unfold ebind_eq_Inr by blast
  then obtain elems s2 where
    rest: "(if chunk_next_offset c \<noteq> 0
       then ebind (readChunkInfo s2 bo (chunk_next_offset c))
              (\<lambda>(c', s3). lsw_chunks fuel bo vbi m tr c' s3
                  (cs @ [emit_chunk vbi (mesh_material_idx m) tr c elems]))
       else Inr (cs @ [emit_chunk vbi (mesh_material_idx m) tr c elems], s2)) = Inr (cs', s')"
    by (cases x) simp
  show ?case
  proof (cases "chunk_next_offset c = 0")
    case True
    with rest have "cs' = cs @ emit_chunk vbi (mesh_material_idx m) tr c elems # []" by simp
    then show ?thesis by blast
  next
    case False
    with rest obtain y where
      "(case y of (c', s3) \<Rightarrow> lsw_chunks fuel bo vbi m tr c' s3
          (cs @ [emit_chunk vbi (mesh_material_idx m) tr c elems])) = Inr (cs', s')"
      by (auto simp: ebind_eq_Inr)
    then obtain c' s3 where
      "lsw_chunks fuel bo vbi m tr c' s3 (cs @ [emit_chunk vbi (mesh_material_idx m) tr c elems])
         = Inr (cs', s')"
      by (cases y) simp
    from Suc.IH [OF this] obtain r where
      "cs' = (cs @ [emit_chunk vbi (mesh_material_idx m) tr c elems]) @ r" by blast
    then have "cs' = cs @ emit_chunk vbi (mesh_material_idx m) tr c elems # r" by simp
    then show ?thesis by blast
  qed
qed

lemma mesh_at_unique: "mesh_at buf p m \<Longrightarrow> mesh_at buf p m' \<Longrightarrow> m' = m"
  by (cases m, cases m') (simp add: mesh_at_def)

lemma chunk_at_same: "chunk_at buf p c \<Longrightarrow> chunk_at buf p c' \<Longrightarrow> c' = c"
  by (cases c, cases c') (simp add: chunk_at_def)

lemma hgp_meshes_first:
  "hgp_meshes cf fuel buf body tr mesh st = Inr st' \<Longrightarrow>
   \<exists>m c rest. mesh_at buf mesh m \<and> chunk_at buf (OFFSET body (mesh_chunk_offset m)) c \<and>
     model_chunks st' = model_chunks st @
       emit_chunk (sint (mesh_vertex_block_idx m - 1)) (mesh_material_idx m) tr c
         (source_elements buf (OFFSET body (chunk_elements_offset c))
            (unat (chunk_num_elements c))) # rest"
proof (induction fuel arbitrary: mesh st)
  case 0
  then show ?case by simp
next
  case (Suc fuel)
  from hgp_meshes_fields [OF Suc.prems] obtain m where m: "mesh_at buf mesh m" by blast
  let ?vbi = "sint (mesh_vertex_block_idx m - 1)"
  let ?log = "stderr_log st @ snd (vertex_stride (mesh_vertex_type m))"
  from Suc.prems obtain vbs cs where
    cs: "hgp_chunks cf buf body mesh ?vbi tr (OFFSET body (mesh_chunk_offset m)) (model_chunks st)
           = Inr cs" and
    rest: "(if mesh_next_offset m \<noteq> 0
       then hgp_meshes cf fuel buf body tr (OFFSET body (mesh_next_offset m))
              \<lparr> model_chunks = cs, vertexBuffers = vbs, stderr_log = ?log \<rparr>
       else Inr \<lparr> model_chunks = cs, vertexBuffers = vbs, stderr_log = ?log \<rparr>) = Inr st'"
    by (auto simp: hgp_meshes_step [OF m] ebind_eq_Inr simp del: hgp_meshes.simps)
  from hgp_chunks_first [OF cs] obtain c mat r where
    c: "chunk_at buf (OFFSET body (mesh_chunk_offset m)) c" and
    mat: "ld_u32 buf (mesh + 8) = Inr mat" and
    e: "cs = model_chunks st @ emit_chunk ?vbi mat tr c
           (source_elements buf (OFFSET body (chunk_elements_offset c))
              (unat (chunk_num_elements c))) # r" by blast
  from m mat have mm: "mat = mesh_material_idx m" by (simp add: mesh_at_def)
  show ?case
  proof (cases "mesh_next_offset m = 0")
    case True
    with rest have "model_chunks st' = cs" by auto
    with e mm m c show ?thesis by blast
  next
    case False
    with rest have "hgp_meshes cf fuel buf body tr (OFFSET body (mesh_next_offset m))
        \<lparr> model_chunks = cs, vertexBuffers = vbs, stderr_log = ?log \<rparr> = Inr st'" by simp
    from Suc.IH [OF this] obtain r' where "model_chunks st' = cs @ r'" by auto
    with e have "model_chunks st' = model_chunks st @ emit_chunk ?vbi mat tr c
           (source_elements buf (OFFSET body (chunk_elements_offset c))
              (unat (chunk_num_elements c))) # (r @ r')" by simp
    with mm m c show ?thesis by blast
  qed
qed

lemma lsw_meshes_first:
  "lsw_meshes cf fuel bo tr m s st = Inr (st', s') \<Longrightarrow>
   \<exists>c s1 elems rest. readChunkInfo s bo (mesh_chunk_offset m) = Inr (c, s1) \<and>
     model_chunks st' = model_chunks st @
       emit_chunk (sint (mesh_vertex_block_idx m - 1)) (mesh_material_idx m) tr c elems # rest"
proof (induction fuel arbitrary: m s st)
  case 0
  then show ?case by simp
next
  case (Suc fuel)
  let ?vbi = "sint (mesh_vertex_block_idx m - 1)"
  let ?log = "stderr_log st @ snd (vertex_stride (mesh_vertex_type m))"
  from Suc.prems obtain vbs x where
    x: "readChunkInfo s bo (mesh_chunk_offset m) = Inr x" and
    r1: "(case x of (c, s1) \<Rightarrow>
      ebind (lsw_chunks cf bo ?vbi m tr c s1 (model_chunks st))
       (\<lambda>(cs, s2).
       if mesh_next_offset m \<noteq> 0
       then ebind (readMeshInfo s2 bo (mesh_next_offset m)) (\<lambda>(m', s3).
              lsw_meshes cf fuel bo tr m' s3
                \<lparr> model_chunks = cs, vertexBuffers = vbs, stderr_log = ?log \<rparr>)
       else Inr (\<lparr> model_chunks = cs, vertexBuffers = vbs, stderr_log = ?log \<rparr>, s2)))
       = Inr (st', s')"
    unfolding lsw_meshes_step ebind_eq_Inr by blast
  obtain c s1 where xs: "x = (c, s1)" by (cases x)
  from x xs have rc: "readChunkInfo s bo (mesh_chunk_offset m) = Inr (c, s1)" by simp
  from r1 xs obtain y where
    y: "lsw_chunks cf bo ?vbi m tr c s1 (model_chunks st) = Inr y" and
    r2: "(case y of (cs, s2) \<Rightarrow>
       if mesh_next_offset m \<noteq> 0
       then ebind (readMeshInfo s2 bo (mesh_next_offset m)) (\<lambda>(m', s3).
              lsw_meshes cf fuel bo tr m' s3
                \<lparr> model_chunks = cs, vertexBuffers = vbs, stderr_log = ?log \<rparr>)
       else Inr (\<lparr> model_chunks = cs, vertexBuffers = vbs, stderr_log = ?log \<rparr>, s2))
       = Inr (st', s')"
    by (auto simp: ebind_eq_Inr)
  obtain cs s2 where ys: "y = (cs, s2)" by (cases y)
  from y ys have cs: "lsw_chunks cf bo ?vbi m tr c s1 (model_chunks st) = Inr (cs, s2)" by simp
  from r2 ys have
    rest: "(if mesh_next_offset m \<noteq> 0
       then ebind (readMeshInfo s2 bo (mesh_next_offset m)) (\<lambda>(m', s3).
              lsw_meshes cf fuel bo tr m' s3
                \<lparr> model_chunks = cs, vertexBuffers = vbs, stderr_log = ?log \<rparr>)
       else Inr (\<lparr> model_chunks = cs, vertexBuffers = vbs, stderr_log = ?log \<rparr>, s2))
       = Inr (st', s')"
    by simp
  from lsw_chunks_first [OF cs] obtain elems r where
    e: "cs = model_chunks st @ emit_chunk ?vbi (mesh_material_idx m) tr c elems # r" by blast
  show ?case
  proof (cases "mesh_next_offset m = 0")
    case True
    with rest have "model_chunks st' = cs" by auto
    with e rc show ?thesis by blast
  next
    case False
    with rest obtain z where "(case z of (m', s3) \<Rightarrow> lsw_meshes cf fuel bo tr m' s3
        \<lparr> model_chunks = cs, vertexBuffers = vbs, stderr_log = ?log \<rparr>) = Inr (st', s')"
      by (auto simp: ebind_eq_Inr)
    then obtain m' s3 where "lsw_meshes cf fuel bo tr m' s3
        \<lparr> model_chunks = cs, vertexBuffers = vbs, stderr_log = ?log \<rparr> = Inr (st', s')"
      by (cases z) simp
    from Suc.IH [OF this] obtain r' where "model_chunks st' = cs @ r'" by auto
    with e have "model_chunks st' = model_chunks st @
        emit_chunk ?vbi (mesh_material_idx m) tr c elems # (r @ r')" by simp
    with rc show ?thesis by blast
  qed
qed

lemma set_stride_ok:
  "0 \<le> i \<Longrightarrow> nat i < length vbs \<Longrightarrow>
   set_stride vbs i s = Inr (vbs[nat i := (vbs ! nat i)\<lparr>stride := s\<rparr>])"
  by (simp add: set_stride_def)

lemma vertex_stride_table:
  "fst (vertex_stride vt) = (if vt = 89 then 36 else if vt = 93 then 56 else 0)"
  "snd (vertex_stride vt) = (if vt = 89 \<or> vt = 93 then [] else [UnknownVertexType vt])"
  by (simp_all add: vertex_stride_def)

lemma hgp_first_chunk:
  assumes m: "mesh_at buf mesh m"
    and vb: "0 \<le> sint (mesh_vertex_block_idx m - 1)"
      "nat (sint (mesh_vertex_block_idx m - 1)) < length (vertexBuffers st)"
    and ch: "chunk_in_range buf body (mesh_chunk_offset m)"
  shows "hgp_meshes (Suc cf) (Suc fuel) buf body tr mesh st =
     ebind
       (if chunk_next_offset (chunk_fields buf (OFFSET body (mesh_chunk_offset m))) \<noteq> 0
        then hgp_chunks cf buf body mesh (sint (mesh_vertex_block_idx m - 1)) tr
               (OFFSET body (chunk_next_offset (chunk_fields buf (OFFSET body (mesh_chunk_offset m)))))
               (model_chunks st @
                  [expected_chunk buf body (sint (mesh_vertex_block_idx m - 1))
                     (mesh_material_idx m) tr (mesh_chunk_offset m)])
        else Inr (model_chunks st @
                  [expected_chunk buf body (sint (mesh_vertex_block_idx m - 1))
                     (mesh_material_idx m) tr (mesh_chunk_offset m)]))
       (\<lambda>cs. if mesh_next_offset m \<noteq> 0
          then hgp_meshes (Suc cf) fuel buf body tr (OFFSET body (mesh_next_offset m))
                 ((mesh_effect buf body tr m [] st)\<lparr>model_chunks := cs\<rparr>)
          else Inr ((mesh_effect buf body tr m [] st)\<lparr>model_chunks := cs\<rparr>))"
proof -
  have mat: "ld_u32 buf (mesh + 8) = Inr (mesh_material_idx m)"
    using m by (simp add: mesh_at_def)
  show ?thesis
    unfolding hgp_meshes_step [OF m] set_stride_ok [OF vb] hgp_chunks_one [OF ch mat]
    by (simp add: mesh_effect_def vertex_stride_table Let_def cong: if_cong)
qed

lemma lsw_first_chunk:
  assumes vb: "0 \<le> sint (mesh_vertex_block_idx m - 1)"
      "nat (sint (mesh_vertex_block_idx m - 1)) < length (vertexBuffers st)"
    and ch: "chunk_in_range buf (unat bo) (mesh_chunk_offset m)"
    and len: "length buf < 2 ^ 32"
  shows "lsw_meshes (Suc cf) (Suc fuel) bo tr m \<lparr>stream_data = buf, stream_pos = p\<rparr> st =
     ebind
       (let c = chunk_fields buf (OFFSET (unat bo) (mesh_chunk_offset m));
            s2 = \<lparr>stream_data = buf,
                   stream_pos = OFFSET (unat bo) (chunk_elements_offset c)
                                  + unat (chunk_num_elements c) * 2\<rparr>;
            cs1 = model_chunks st @
                  [expected_chunk buf (unat bo) (sint (mesh_vertex_block_idx m - 1))
                     (mesh_material_idx m) tr (mesh_chunk_offset m)]
        in if chunk_next_offset c \<noteq> 0
           then ebind (readChunkInfo s2 bo (chunk_next_offset c))
                  (\<lambda>(c', s3). lsw_chunks cf bo (sint (mesh_vertex_block_idx m - 1)) m tr c' s3 cs1)
           else Inr (cs1, s2))
       (\<lambda>(cs, s2). if mesh_next_offset m \<noteq> 0
          then ebind (readMeshInfo s2 bo (mesh_next_offset m)) (\<lambda>(m', s3).
                 lsw_meshes (Suc cf) fuel bo tr m' s3
                   ((mesh_effect buf (unat bo) tr m [] st)\<lparr>model_chunks := cs\<rparr>))
          else Inr ((mesh_effect buf (unat bo) tr m [] st)\<lparr>model_chunks := cs\<rparr>, s2))"
proof -
  let ?cd = "OFFSET (unat bo) (mesh_chunk_offset m)"
  let ?c = "chunk_fields buf ?cd"
  let ?vbi = "sint (mesh_vertex_block_idx m - 1)"
  from ch have r: "?cd + 16 \<le> length buf"
    and rng: "OFFSET (unat bo) (chunk_elements_offset ?c) + unat (chunk_num_elements ?c) * 2
          \<le> length buf"
    by (simp_all add: chunk_in_range_def Let_def mult.commute)
  from r have at: "chunk_at buf ?cd ?c" by (rule chunk_at_fields)
  from r have "unat bo + unat (mesh_chunk_offset m) + 16 \<le> length buf"
    by (simp add: OFFSET_def)
  then have nw: "unat (bo + mesh_chunk_offset m) = ?cd"
    unfolding OFFSET_def using len by (rule no_wrap)
  have rc: "readChunkInfo \<lparr>stream_data = buf, stream_pos = p\<rparr> bo (mesh_chunk_offset m) =
      Inr (?c, \<lparr>stream_data = buf, stream_pos = ?cd + 16\<rparr>)"
    using at readChunkInfo_ld [OF _ _ _ _ nw, of buf "chunk_next_offset ?c"
        "chunk_primitive_type ?c" "chunk_num_elements ?c" "chunk_elements_offset ?c"]
    by (simp add: chunk_at_def)
  have nw2: "unat (bo + chunk_elements_offset ?c) = OFFSET (unat bo) (chunk_elements_offset ?c)"
    unfolding OFFSET_def using rng len
    by (intro no_wrap [of _ _ "unat (chunk_num_elements ?c) * 2"]) (simp_all add: OFFSET_def)
  note step = lsw_chunks_step [OF rng nw2, of cf ?vbi m tr "?cd + 16" "model_chunks st"]
  show ?thesis
    unfolding lsw_meshes_step set_stride_ok [OF vb] rc
    by (simp add: step u16_array_source [OF rng] expected_chunk_def mesh_effect_def
          vertex_stride_table Let_def split_beta cong: if_cong del: lsw_chunks.simps lsw_meshes.simps)
qed

lemma hgp_chunks_grows:
  "hgp_chunks fuel buf body mesh vbi tr cd cs = Inr cs' \<Longrightarrow> \<exists>r. cs' = cs @ r"
  using hgp_chunks_first [of fuel buf body mesh vbi tr cd cs cs'] by auto

lemma hgp_meshes_grows:
  "hgp_meshes cf fuel buf body tr mesh st = Inr st' \<Longrightarrow>
   \<exists>r. model_chunks st' = model_chunks st @ r"
  using hgp_meshes_first [of cf fuel buf body tr mesh st st'] by auto

lemma lsw_chunks_grows:
  "lsw_chunks fuel bo vbi m tr c s cs = Inr (cs', s') \<Longrightarrow> \<exists>r. cs' = cs @ r"
  using lsw_chunks_first [of fuel bo vbi m tr c s cs cs' s'] by auto

lemma lsw_meshes_grows:
  "lsw_meshes cf fuel bo tr m s st = Inr (st', s') \<Longrightarrow>
   \<exists>r. model_chunks st' = model_chunks st @ r"
  using lsw_meshes_first [of cf fuel bo tr m s st st' s'] by auto

text \<open>
  Claim C9. Every mesh record that is processed emits at least one chunk: the chunk loop reads
  and emits the record at the mesh's \<open>chunk_offset\<close> before it tests \<open>next_offset\<close>, also
  when \<open>chunk_offset\<close> is 0. For a mesh record and a first chunk record that lie inside an
  image shorter than 4 GiB, and a vertex-buffer index inside the vector, one iteration of the
  mesh loop (with fuel for one iteration of each loop) is, in both walkers, the rest of the
  walk run on a chunk list \<open>cs1\<close> that already holds the chunk of the record at
  \<open>body + chunk_offset\<close>: the rest of the chunk chain when the record's \<open>next_offset\<close> is
  not 0, then the next mesh record when the mesh's \<open>next_offset\<close> is not 0, and the walk
  returns at once when both are 0. The equations hold whatever the rest of the walk does, also
  when a later chain never ends; and every state the walk returns has a chunk list that
  starts with \<open>cs1\<close>.
\<close>

theorem mesh_record_emits_a_chunk:
  assumes "mesh_at buf mesh m"
    and "0 \<le> sint (mesh_vertex_block_idx m - 1)"
    and "nat (sint (mesh_vertex_block_idx m - 1)) < length (vertexBuffers st)"
    and "chunk_in_range buf (unat bo) (mesh_chunk_offset m)"
    and "length buf < 2 ^ 32"
  shows
    "(let vbi = sint (mesh_vertex_block_idx m - 1);
          c = chunk_fields buf (OFFSET (unat bo) (mesh_chunk_offset m));
          cs1 = model_chunks st @
                  [expected_chunk buf (unat bo) vbi (mesh_material_idx m) tr (mesh_chunk_offset m)];
          st1 = mesh_effect buf (unat bo) tr m [] st;
          s2 = \<lparr>stream_data = buf,
                 stream_pos = OFFSET (unat bo) (chunk_elements_offset c)
                                + unat (chunk_num_elements c) * 2\<rparr>
      in hgp_meshes (Suc cf) (Suc fuel) buf (unat bo) tr mesh st =
           ebind
             (if chunk_next_offset c \<noteq> 0
              then hgp_chunks cf buf (unat bo) mesh vbi tr (OFFSET (unat bo) (chunk_next_offset c)) cs1
              else Inr cs1)
             (\<lambda>cs. if mesh_next_offset m \<noteq> 0
                then hgp_meshes (Suc cf) fuel buf (unat bo) tr (OFFSET (unat bo) (mesh_next_offset m))
                       (st1\<lparr>model_chunks := cs\<rparr>)
                else Inr (st1\<lparr>model_chunks := cs\<rparr>)) \<and>
         lsw_meshes (Suc cf) (Suc fuel) bo tr m \<lparr>stream_data = buf, stream_pos = p\<rparr> st =
           ebind
             (if chunk_next_offset c \<noteq> 0
              then ebind (readChunkInfo s2 bo (chunk_next_offset c))
                     (\<lambda>(c', s3). lsw_chunks cf bo vbi m tr c' s3 cs1)
              else Inr (cs1, s2))
             (\<lambda>(cs, s2). if mesh_next_offset m \<noteq> 0
                then ebind (readMeshInfo s2 bo (mesh_next_offset m)) (\<lambda>(m', s3).
                       lsw_meshes (Suc cf) fuel bo tr m' s3 (st1\<lparr>model_chunks := cs\<rparr>))
                else Inr (st1\<lparr>model_chunks := cs\<rparr>, s2)) \<and>
         (\<forall>st'. hgp_meshes (Suc cf) (Suc fuel) buf (unat bo) tr mesh st = Inr st' \<longrightarrow>
            (\<exists>rest. model_chunks st' = cs1 @ rest)) \<and>
         (\<forall>st' s'. lsw_meshes (Suc cf) (Suc fuel) bo tr m \<lparr>stream_data = buf, stream_pos = p\<rparr> st
                      = Inr (st', s') \<longrightarrow>
            (\<exists>rest. model_chunks st' = cs1 @ rest)))"
proof -
  let ?vbi = "sint (mesh_vertex_block_idx m - 1)"
  let ?c = "chunk_fields buf (OFFSET (unat bo) (mesh_chunk_offset m))"
  let ?cs1 = "model_chunks st @
      [expected_chunk buf (unat bo) ?vbi (mesh_material_idx m) tr (mesh_chunk_offset m)]"
  let ?st1 = "mesh_effect buf (unat bo) tr m [] st"
  note b = hgp_first_chunk [OF assms(1-4), of cf fuel tr]
  note l = lsw_first_chunk [OF assms(2-5), of cf fuel tr p, unfolded Let_def]
  have g1: "\<exists>rest. model_chunks st' = ?cs1 @ rest"
    if r: "hgp_meshes (Suc cf) (Suc fuel) buf (unat bo) tr mesh st = Inr st'" for st'
  proof -
    from r [unfolded b ebind_eq_Inr] obtain cs where
      a: "(if chunk_next_offset ?c \<noteq> 0
           then hgp_chunks cf buf (unat bo) mesh ?vbi tr (OFFSET (unat bo) (chunk_next_offset ?c)) ?cs1
           else Inr ?cs1) = Inr cs" and
      k: "(if mesh_next_offset m \<noteq> 0
           then hgp_meshes (Suc cf) fuel buf (unat bo) tr (OFFSET (unat bo) (mesh_next_offset m))
                  (?st1\<lparr>model_chunks := cs\<rparr>)
           else Inr (?st1\<lparr>model_chunks := cs\<rparr>)) = Inr st'"
      by blast
    from a obtain r1 where r1: "cs = ?cs1 @ r1"
      by (cases "chunk_next_offset ?c = 0") (auto dest: hgp_chunks_grows)
    from k obtain r2 where "model_chunks st' = cs @ r2"
      by (cases "mesh_next_offset m = 0") (auto dest: hgp_meshes_grows)
    with r1 show ?thesis by simp
  qed
  have g2: "\<exists>rest. model_chunks st' = ?cs1 @ rest"
    if r: "lsw_meshes (Suc cf) (Suc fuel) bo tr m \<lparr>stream_data = buf, stream_pos = p\<rparr> st
             = Inr (st', s')" for st' s'
  proof -
    from r [unfolded l ebind_eq_Inr] obtain x where
      a: "(if chunk_next_offset ?c \<noteq> 0
           then ebind (readChunkInfo \<lparr>stream_data = buf,
                   stream_pos = OFFSET (unat bo) (chunk_elements_offset ?c)
                                  + unat (chunk_num_elements ?c) * 2\<rparr> bo (chunk_next_offset ?c))
                  (\<lambda>(c', s3). lsw_chunks cf bo ?vbi m tr c' s3 ?cs1)
           else Inr (?cs1, \<lparr>stream_data = buf,
                   stream_pos = OFFSET (unat bo) (chunk_elements_offset ?c)
                                  + unat (chunk_num_elements ?c) * 2\<rparr>)) = Inr x" and
      k: "(case x of (cs, s2) \<Rightarrow> if mesh_next_offset m \<noteq> 0
          then ebind (readMeshInfo s2 bo (mesh_next_offset m)) (\<lambda>(m', s3).
                 lsw_meshes (Suc cf) fuel bo tr m' s3 (?st1\<lparr>model_chunks := cs\<rparr>))
          else Inr (?st1\<lparr>model_chunks := cs\<rparr>, s2)) = Inr (st', s')"
      by blast
    obtain cs s2 where x: "x = (cs, s2)" by (cases x)
    from a x obtain r1 where r1: "cs = ?cs1 @ r1"
      by (cases "chunk_next_offset ?c = 0")
         (auto simp: ebind_eq_Inr dest: lsw_chunks_grows)
    from k x obtain r2 where "model_chunks st' = cs @ r2"
      by (cases "mesh_next_offset m = 0")
         (auto simp: ebind_eq_Inr dest: lsw_meshes_grows)
    with r1 show ?thesis by simp
  qed
  from b l g1 g2 show ?thesis unfolding Let_def by blast
qed

lemma file1_mesh1: "mesh_at file1 88 mesh1"
  by code_simp

lemma file1_first_chunk_in_range: "chunk_in_range file1 (unat (48 :: u32)) (mesh_chunk_offset mesh1)"
  by code_simp

lemma file1_vb:
  "0 \<le> sint (mesh_vertex_block_idx mesh1 - 1)"
  "nat (sint (mesh_vertex_block_idx mesh1 - 1)) < length (vertexBuffers st0)"
  by (simp_all add: mesh1_def st0_def)

lemma file1_last_records:
  "mesh_next_offset mesh1 = 0"
  "chunk_next_offset (chunk_fields file1 (OFFSET (unat (48 :: u32)) (mesh_chunk_offset mesh1))) = 0"
  by code_simp+

lemma file1_first_chunk:
  "model_chunks st0 @
     [expected_chunk file1 (unat (48 :: u32)) (sint (mesh_vertex_block_idx mesh1 - 1))
        (mesh_material_idx mesh1) (7 :: nat) (mesh_chunk_offset mesh1)] =
   [\<lparr>vertex_buffer_idx = 0, material_idx = 7, primitive_type = 4, num_elements = 3,
     transformation = 7, element_buffer = [0, 1, 2]\<rparr>]"
  by code_simp

lemma file1_mesh_effect:
  "(mesh_effect file1 (unat (48 :: u32)) (7 :: nat) mesh1 [] st0)\<lparr>model_chunks := cs\<rparr> =
     \<lparr>model_chunks = cs, vertexBuffers = [\<lparr>vb_size = 0, vb_data = [], stride = 36\<rparr>],
      stderr_log = []\<rparr>"
  by (simp add: mesh_effect_def mesh1_def st0_def)

lemma file1_elements_end:
  "OFFSET (unat (48 :: u32)) (chunk_elements_offset
      (chunk_fields file1 (OFFSET (unat (48 :: u32)) (mesh_chunk_offset mesh1))))
     + unat (chunk_num_elements
      (chunk_fields file1 (OFFSET (unat (48 :: u32)) (mesh_chunk_offset mesh1)))) * 2 = 70"
  by code_simp

theorem mesh_record_emits_a_chunk_witness:
  "mesh_at file1 88 mesh1 \<and>
   0 \<le> sint (mesh_vertex_block_idx mesh1 - 1) \<and>
   nat (sint (mesh_vertex_block_idx mesh1 - 1)) < length (vertexBuffers st0) \<and>
   chunk_in_range file1 (unat (48 :: u32)) (mesh_chunk_offset mesh1) \<and>
   length file1 < 2 ^ 32 \<and>
   mesh_chunk_offset mesh1 = 0 \<and>
   hgp_meshes (Suc 0) (Suc 0) file1 (unat (48 :: u32)) (7 :: nat) 88 st0 =
     Inr \<lparr>model_chunks =
            [\<lparr>vertex_buffer_idx = 0, material_idx = 7, primitive_type = 4, num_elements = 3,
              transformation = 7, element_buffer = [0, 1, 2]\<rparr>],
          vertexBuffers = [\<lparr>vb_size = 0, vb_data = [], stride = 36\<rparr>],
          stderr_log = []\<rparr> \<and>
   lsw_meshes (Suc 0) (Suc 0) 48 (7 :: nat) mesh1 \<lparr>stream_data = file1, stream_pos = 0\<rparr> st0 =
     Inr (\<lparr>model_chunks =
            [\<lparr>vertex_buffer_idx = 0, material_idx = 7, primitive_type = 4, num_elements = 3,
              transformation = 7, element_buffer = [0, 1, 2]\<rparr>],
          vertexBuffers = [\<lparr>vb_size = 0, vb_data = [], stride = 36\<rparr>],
          stderr_log = []\<rparr>, \<lparr>stream_data = file1, stream_pos = 70\<rparr>)"
proof -
  have n: "length file1 < 2 ^ 32" by (simp add: file1_length)
  have z: "mesh_chunk_offset mesh1 = 0" by (simp add: mesh1_def)
  note t = mesh_record_emits_a_chunk [OF file1_mesh1 file1_vb file1_first_chunk_in_range n,
      where cf = 0 and fuel = 0 and tr = "7 :: nat" and p = 0, unfolded Let_def]
  from t [THEN conjunct1] have b:
    "hgp_meshes (Suc 0) (Suc 0) file1 (unat (48 :: u32)) (7 :: nat) 88 st0 =
     Inr \<lparr>model_chunks =
            [\<lparr>vertex_buffer_idx = 0, material_idx = 7, primitive_type = 4, num_elements = 3,
              transformation = 7, element_buffer = [0, 1, 2]\<rparr>],
          vertexBuffers = [\<lparr>vb_size = 0, vb_data = [], stride = 36\<rparr>],
          stderr_log = []\<rparr>"
    by (simp only: file1_last_records file1_first_chunk file1_mesh_effect
          simp_thms if_False ebind_Inr)
  from t [THEN conjunct2, THEN conjunct1] have l:
    "lsw_meshes (Suc 0) (Suc 0) 48 (7 :: nat) mesh1 \<lparr>stream_data = file1, stream_pos = 0\<rparr> st0 =
     Inr (\<lparr>model_chunks =
            [\<lparr>vertex_buffer_idx = 0, material_idx = 7, primitive_type = 4, num_elements = 3,
              transformation = 7, element_buffer = [0, 1, 2]\<rparr>],
          vertexBuffers = [\<lparr>vb_size = 0, vb_data = [], stride = 36\<rparr>],
          stderr_log = []\<rparr>, \<lparr>stream_data = file1, stream_pos = 70\<rparr>)"
    by (simp only: file1_last_records file1_first_chunk file1_mesh_effect file1_elements_end
          simp_thms if_False ebind_Inr prod.case)
  from file1_mesh1 file1_vb file1_first_chunk_in_range n z b l show ?thesis
    by (intro conjI)
qed

section \<open>Vertex stride and the unknown-type diagnostic\<close>

lemma hgp_mesh_record:
  assumes m: "mesh_at buf mesh m"
    and vb: "0 \<le> sint (mesh_vertex_block_idx m - 1)"
      "nat (sint (mesh_vertex_block_idx m - 1)) < length (vertexBuffers st)"
    and ch: "chunk_chain buf body offs" "hd offs = mesh_chunk_offset m"
      "list_all (chunk_in_range buf body) offs" "length offs \<le> cf"
  shows "hgp_meshes cf (Suc fuel) buf body tr mesh st =
     (if mesh_next_offset m = 0 then Inr (mesh_effect buf body tr m offs st)
      else hgp_meshes cf fuel buf body tr (OFFSET body (mesh_next_offset m))
             (mesh_effect buf body tr m offs st))"
proof -
  have mat: "ld_u32 buf (mesh + 8) = Inr (mesh_material_idx m)"
    using m by (simp add: mesh_at_def)
  have cs: "hgp_chunks cf buf body mesh (sint (mesh_vertex_block_idx m - 1)) tr
       (OFFSET body (mesh_chunk_offset m)) (model_chunks st) =
     Inr (model_chunks st @ map (expected_chunk buf body (sint (mesh_vertex_block_idx m - 1))
            (mesh_material_idx m) tr) offs)"
    using hgp_chunks_chain [OF ch(1) ch(3) ch(4) mat] ch(2) by simp
  show ?thesis
    unfolding hgp_meshes_step [OF m] set_stride_ok [OF vb] cs
    by (simp add: mesh_effect_def vertex_stride_table Let_def cong: if_cong)
qed

lemma lsw_mesh_record:
  assumes m: "mesh_at buf mesh m"
    and vb: "0 \<le> sint (mesh_vertex_block_idx m - 1)"
      "nat (sint (mesh_vertex_block_idx m - 1)) < length (vertexBuffers st)"
    and ch: "chunk_chain buf (unat bo) offs" "hd offs = mesh_chunk_offset m"
      "list_all (chunk_in_range buf (unat bo)) offs" "length offs \<le> cf"
    and len: "length buf < 2 ^ 32"
  shows "\<exists>p1. lsw_meshes cf (Suc fuel) bo tr m \<lparr>stream_data = buf, stream_pos = p\<rparr> st =
     (if mesh_next_offset m = 0
      then Inr (mesh_effect buf (unat bo) tr m offs st, \<lparr>stream_data = buf, stream_pos = p1\<rparr>)
      else ebind (readMeshInfo \<lparr>stream_data = buf, stream_pos = p1\<rparr> bo (mesh_next_offset m))
             (\<lambda>(m', s3). lsw_meshes cf fuel bo tr m' s3 (mesh_effect buf (unat bo) tr m offs st)))"
proof -
  let ?cd = "OFFSET (unat bo) (mesh_chunk_offset m)"
  let ?vbi = "sint (mesh_vertex_block_idx m - 1)"
  have mat: "ld_u32 buf (mesh + 8) = Inr (mesh_material_idx m)"
    using m by (simp add: mesh_at_def)
  from ch(1) obtain off rest where offs: "offs = off # rest" by (cases offs) auto
  with ch(2,3) have r: "?cd + 16 \<le> length buf"
    by (simp add: chunk_in_range_def Let_def)
  then have at: "chunk_at buf ?cd (chunk_fields buf ?cd)" by (rule chunk_at_fields)
  from r have "unat bo + unat (mesh_chunk_offset m) + 16 \<le> length buf"
    by (simp add: OFFSET_def)
  then have nw: "unat (bo + mesh_chunk_offset m) = ?cd"
    unfolding OFFSET_def using len by (rule no_wrap)
  have rc: "readChunkInfo \<lparr>stream_data = buf, stream_pos = p\<rparr> bo (mesh_chunk_offset m) =
      Inr (chunk_fields buf ?cd, \<lparr>stream_data = buf, stream_pos = ?cd + 16\<rparr>)"
    using at readChunkInfo_ld [OF _ _ _ _ nw, of buf "chunk_next_offset (chunk_fields buf ?cd)"
        "chunk_primitive_type (chunk_fields buf ?cd)" "chunk_num_elements (chunk_fields buf ?cd)"
        "chunk_elements_offset (chunk_fields buf ?cd)"]
    by (simp add: chunk_at_def)
  from lsw_chunks_chain [OF ch(1) ch(3) ch(4) len mat, of ?vbi tr "?cd + 16" "model_chunks st"]
  obtain p1 where
    lc: "lsw_chunks cf bo ?vbi m tr (chunk_fields buf ?cd)
           \<lparr>stream_data = buf, stream_pos = ?cd + 16\<rparr> (model_chunks st) =
         Inr (model_chunks st @ map (expected_chunk buf (unat bo) ?vbi (mesh_material_idx m) tr) offs,
              \<lparr>stream_data = buf, stream_pos = p1\<rparr>)"
    using ch(2) by auto
  have "lsw_meshes cf (Suc fuel) bo tr m \<lparr>stream_data = buf, stream_pos = p\<rparr> st =
     (if mesh_next_offset m = 0
      then Inr (mesh_effect buf (unat bo) tr m offs st, \<lparr>stream_data = buf, stream_pos = p1\<rparr>)
      else ebind (readMeshInfo \<lparr>stream_data = buf, stream_pos = p1\<rparr> bo (mesh_next_offset m))
             (\<lambda>(m', s3). lsw_meshes cf fuel bo tr m' s3 (mesh_effect buf (unat bo) tr m offs st)))"
    unfolding lsw_meshes_step set_stride_ok [OF vb] rc
    by (simp add: lc mesh_effect_def vertex_stride_table Let_def cong: if_cong)
  then show ?thesis by blast
qed

text \<open>
  Claim C4, as the code has it. For every mesh record processed, the stride written to the
  addressed vertex buffer is 36 for vertex type 89, 56 for vertex type 93 and 0 for every other
  value; for another value one diagnostic line goes to stderr, and nothing about it is stored
  in the chunk list or the vertex buffers; the walk is not aborted: it emits the chunks of the
  mesh and goes on with the next mesh record (or returns after the last one). Both walkers,
  for a mesh whose vertex-buffer index is in range and whose chunk chain lies inside an image
  shorter than 4 GiB.
\<close>

theorem mesh_record_stride_and_diagnostic:
  assumes "mesh_at buf mesh m"
    and "0 \<le> sint (mesh_vertex_block_idx m - 1)"
    and "nat (sint (mesh_vertex_block_idx m - 1)) < length (vertexBuffers st)"
    and "chunk_chain buf (unat bo) offs"
    and "hd offs = mesh_chunk_offset m"
    and "list_all (chunk_in_range buf (unat bo)) offs"
    and "length offs \<le> cf"
    and "length buf < 2 ^ 32"
  shows
    "hgp_meshes cf (Suc fuel) buf (unat bo) tr mesh st =
       (if mesh_next_offset m = 0 then Inr (mesh_effect buf (unat bo) tr m offs st)
        else hgp_meshes cf fuel buf (unat bo) tr (OFFSET (unat bo) (mesh_next_offset m))
               (mesh_effect buf (unat bo) tr m offs st)) \<and>
     (\<exists>p1. lsw_meshes cf (Suc fuel) bo tr m \<lparr>stream_data = buf, stream_pos = p\<rparr> st =
       (if mesh_next_offset m = 0
        then Inr (mesh_effect buf (unat bo) tr m offs st, \<lparr>stream_data = buf, stream_pos = p1\<rparr>)
        else ebind (readMeshInfo \<lparr>stream_data = buf, stream_pos = p1\<rparr> bo (mesh_next_offset m))
               (\<lambda>(m', s3). lsw_meshes cf fuel bo tr m' s3
                  (mesh_effect buf (unat bo) tr m offs st)))) \<and>
     stride (vertexBuffers (mesh_effect buf (unat bo) tr m offs st)
               ! nat (sint (mesh_vertex_block_idx m - 1))) =
       (if mesh_vertex_type m = 89 then 36 else if mesh_vertex_type m = 93 then 56 else 0) \<and>
     stderr_log (mesh_effect buf (unat bo) tr m offs st) =
       stderr_log st @ (if mesh_vertex_type m = 89 \<or> mesh_vertex_type m = 93 then []
                        else [UnknownVertexType (mesh_vertex_type m)]) \<and>
     length (model_chunks (mesh_effect buf (unat bo) tr m offs st)) =
       length (model_chunks st) + length offs"
proof -
  note b = hgp_mesh_record [OF assms(1-7), of fuel tr]
  note l = lsw_mesh_record [OF assms, of fuel tr p]
  have s: "stride (vertexBuffers (mesh_effect buf (unat bo) tr m offs st)
               ! nat (sint (mesh_vertex_block_idx m - 1))) =
       (if mesh_vertex_type m = 89 then 36 else if mesh_vertex_type m = 93 then 56 else 0)"
    using assms(3) by (simp add: mesh_effect_def Let_def)
  have d: "stderr_log (mesh_effect buf (unat bo) tr m offs st) =
       stderr_log st @ (if mesh_vertex_type m = 89 \<or> mesh_vertex_type m = 93 then []
                        else [UnknownVertexType (mesh_vertex_type m)])"
    by (simp add: mesh_effect_def Let_def)
  have c: "length (model_chunks (mesh_effect buf (unat bo) tr m offs st)) =
       length (model_chunks st) + length offs"
    by (simp add: mesh_effect_def Let_def)
  from b l s d c show ?thesis by blast
qed

lemma fixture_mesh7: "mesh_at (fixture 90) 120 mesh7"
  by code_simp

lemma fixture_vb:
  "0 \<le> sint (mesh_vertex_block_idx mesh7 - 1) \<and>
   nat (sint (mesh_vertex_block_idx mesh7 - 1)) < length (vertexBuffers st0) \<and>
   hd [0, 0x20] = mesh_chunk_offset mesh7"
  by (simp add: mesh7_def st0_def)

theorem mesh_record_stride_and_diagnostic_witness:
  "mesh_at (fixture 90) 120 mesh7 \<and>
   0 \<le> sint (mesh_vertex_block_idx mesh7 - 1) \<and>
   nat (sint (mesh_vertex_block_idx mesh7 - 1)) < length (vertexBuffers st0) \<and>
   chunk_chain (fixture 90) (unat (48 :: u32)) [0, 0x20] \<and>
   hd [0, 0x20] = mesh_chunk_offset mesh7 \<and>
   list_all (chunk_in_range (fixture 90) (unat (48 :: u32))) [0, 0x20] \<and>
   length [0, 0x20 :: u32] \<le> 5 \<and> length (fixture 90) < 2 ^ 32 \<and>
   stride (vertexBuffers (mesh_effect (fixture 90) (unat (48 :: u32)) (7 :: nat) mesh7 [0, 0x20] st0)
             ! nat (sint (mesh_vertex_block_idx mesh7 - 1))) = 0 \<and>
   stderr_log (mesh_effect (fixture 90) (unat (48 :: u32)) (7 :: nat) mesh7 [0, 0x20] st0)
     = [UnknownVertexType 90] \<and>
   hgp_meshes 5 (Suc 4) (fixture 90) (unat (48 :: u32)) (7 :: nat) 120 st0 =
     hgp_meshes 5 4 (fixture 90) (unat (48 :: u32)) 7 (OFFSET (unat (48 :: u32)) 0x7C)
       (mesh_effect (fixture 90) (unat (48 :: u32)) 7 mesh7 [0, 0x20] st0)"
proof -
  have l: "length [0, 0x20 :: u32] \<le> 5" by simp
  have n: "length (fixture 90) < 2 ^ 32" by (simp add: fixture_length)
  note v = fixture_vb [THEN conjunct1] fixture_vb [THEN conjunct2, THEN conjunct1]
    fixture_vb [THEN conjunct2, THEN conjunct2]
  note t = mesh_record_stride_and_diagnostic [OF fixture_mesh7 v(1) v(2) fixture_chain v(3)
      fixture_in_range l n, of 4 "7 :: nat" 0]
  have e: "mesh_next_offset mesh7 \<noteq> 0" "mesh_vertex_type mesh7 = 90" "stderr_log st0 = []"
    by (simp_all add: mesh7_def st0_def)
  from t e have
    "stride (vertexBuffers (mesh_effect (fixture 90) (unat (48 :: u32)) (7 :: nat) mesh7 [0, 0x20] st0)
             ! nat (sint (mesh_vertex_block_idx mesh7 - 1))) = 0"
    "stderr_log (mesh_effect (fixture 90) (unat (48 :: u32)) (7 :: nat) mesh7 [0, 0x20] st0)
       = [UnknownVertexType 90]"
    "hgp_meshes 5 (Suc 4) (fixture 90) (unat (48 :: u32)) (7 :: nat) 120 st0 =
       hgp_meshes 5 4 (fixture 90) (unat (48 :: u32)) 7 (OFFSET (unat (48 :: u32)) 0x7C)
         (mesh_effect (fixture 90) (unat (48 :: u32)) 7 mesh7 [0, 0x20] st0)"
    by (simp_all add: mesh7_def del: hgp_meshes.simps)
  with fixture_mesh7 v fixture_chain fixture_in_range l n show ?thesis by blast
qed

text \<open>
  The claim as stated fails: the diagnostic is printed, not recorded for the caller. The image
  \<open>fixture 90\<close> holds a mesh of unknown vertex type 90 followed by a mesh of type 89 on the
  same vertex buffer; \<open>fixture 89\<close> is the same image with both meshes of type 89. Both walks
  hand the caller the same chunk list and the same vertex buffers; the two runs differ in the
  stderr output alone.
\<close>

theorem unknown_vertex_type_not_recorded:
  "hgp_processMesh 5 (fixture 90) 48 0x38 (7::nat) st0 =
     Inr \<lparr>model_chunks =
        [\<lparr>vertex_buffer_idx = 0, material_idx = 7, primitive_type = 4,
            num_elements = 3, transformation = 7, element_buffer = [0, 1, 2]\<rparr>,
         \<lparr>vertex_buffer_idx = 0, material_idx = 7, primitive_type = 5,
            num_elements = 2, transformation = 7, element_buffer = [7, 9]\<rparr>,
         \<lparr>vertex_buffer_idx = 0, material_idx = 8, primitive_type = 5,
            num_elements = 2, transformation = 7, element_buffer = [7, 9]\<rparr>],
        vertexBuffers = [\<lparr>vb_size = 0, vb_data = [], stride = 36\<rparr>],
        stderr_log = [UnknownVertexType 90]\<rparr> \<and>
   hgp_processMesh 5 (fixture 89) 48 0x38 (7::nat) st0 =
     Inr \<lparr>model_chunks =
        [\<lparr>vertex_buffer_idx = 0, material_idx = 7, primitive_type = 4,
            num_elements = 3, transformation = 7, element_buffer = [0, 1, 2]\<rparr>,
         \<lparr>vertex_buffer_idx = 0, material_idx = 7, primitive_type = 5,
            num_elements = 2, transformation = 7, element_buffer = [7, 9]\<rparr>,
         \<lparr>vertex_buffer_idx = 0, material_idx = 8, primitive_type = 5,
            num_elements = 2, transformation = 7, element_buffer = [7, 9]\<rparr>],
        vertexBuffers = [\<lparr>vb_size = 0, vb_data = [], stride = 36\<rparr>],
        stderr_log = []\<rparr>"
  by code_simp

lemma vec_simps:
  "i < length v \<Longrightarrow> vec_get v (int i) = Inr (v ! i)"
  "i < length v \<Longrightarrow> vec_set v (int i) x = Inr (v[i := x])"
  by (simp_all add: vec_get_def vec_set_def)

lemma transform_loop_inv:
  assumes loc: "\<forall>j<n. ld_matrix buf (tm + 64 * j) = Inr (local ! j)"
    and par: "\<forall>j<n. ld_s8 buf (tree + 96 * j + 80) = Inr (parent ! j)"
    and ord: "\<forall>j<n. sint (parent ! j) = - 1 \<or> (0 \<le> sint (parent ! j) \<and> sint (parent ! j) < int j)"
  shows "n - i = k \<Longrightarrow> i \<le> n \<Longrightarrow> length mt = n \<Longrightarrow>
    \<exists>w. transform_loop mul ld_matrix buf tree tm n i mt = Inr w \<and> length w = n \<and>
      (\<forall>j<i. w ! j = mt ! j) \<and>
      (\<forall>j. i \<le> j \<and> j < n \<longrightarrow>
         w ! j = (if sint (parent ! j) = - 1 then local ! j
                  else mul (local ! j) (w ! nat (sint (parent ! j)))))"
proof (induction k arbitrary: i mt)
  case 0
  then have "i = n" by simp
  with 0 show ?case by auto
next
  case (Suc k)
  then have lt: "i < n" by simp
  have li: "i < length mt" using lt Suc.prems by simp
  note rd = loc [rule_format, OF lt] par [rule_format, OF lt]
  show ?case
  proof (cases "sint (parent ! i) = - 1")
    case True
    let ?mt = "mt[i := local ! i]"
    have step: "transform_loop mul ld_matrix buf tree tm n i mt =
        transform_loop mul ld_matrix buf tree tm n (i + 1) ?mt"
      using lt li True rd by (subst transform_loop.simps) (simp add: vec_simps)
    have "n - (i + 1) = k" "i + 1 \<le> n" "length ?mt = n" using Suc.prems lt by simp_all
    from Suc.IH [OF this] obtain w where
      w: "transform_loop mul ld_matrix buf tree tm n (i + 1) ?mt = Inr w" "length w = n"
        "\<forall>j<i + 1. w ! j = ?mt ! j"
        "\<forall>j. i + 1 \<le> j \<and> j < n \<longrightarrow>
           w ! j = (if sint (parent ! j) = - 1 then local ! j
                    else mul (local ! j) (w ! nat (sint (parent ! j))))"
      by blast
    from w(3) li have wi: "w ! i = local ! i" by simp
    from w(3) have old: "\<forall>j<i. w ! j = mt ! j" by simp
    have "\<forall>j. i \<le> j \<and> j < n \<longrightarrow>
           w ! j = (if sint (parent ! j) = - 1 then local ! j
                    else mul (local ! j) (w ! nat (sint (parent ! j))))"
    proof (intro allI impI)
      fix j assume j: "i \<le> j \<and> j < n"
      show "w ! j = (if sint (parent ! j) = - 1 then local ! j
                    else mul (local ! j) (w ! nat (sint (parent ! j))))"
      proof (cases "j = i")
        case True
        with wi \<open>sint (parent ! i) = - 1\<close> show ?thesis by simp
      next
        case False
        with j have "i + 1 \<le> j \<and> j < n" by simp
        with w(4) show ?thesis by blast
      qed
    qed
    with step w(1,2) old show ?thesis by auto
  next
    case False
    let ?p = "nat (sint (parent ! i))"
    from ord lt False have pr: "0 \<le> sint (parent ! i)" "sint (parent ! i) < int i" by auto
    then have pi: "?p < i" by simp
    then have pl: "?p < length mt" using li by simp
    let ?mt = "mt[i := mul (local ! i) (mt ! ?p)]"
    have vg: "vec_get (mt[i := local ! i]) (sint (parent ! i)) = Inr (mt ! ?p)"
      using pr pi pl by (simp add: vec_get_def)
    have step: "transform_loop mul ld_matrix buf tree tm n i mt =
        transform_loop mul ld_matrix buf tree tm n (i + 1) ?mt"
      using lt li False rd vg by (subst transform_loop.simps) (simp add: vec_simps)
    have "n - (i + 1) = k" "i + 1 \<le> n" "length ?mt = n" using Suc.prems lt by simp_all
    from Suc.IH [OF this] obtain w where
      w: "transform_loop mul ld_matrix buf tree tm n (i + 1) ?mt = Inr w" "length w = n"
        "\<forall>j<i + 1. w ! j = ?mt ! j"
        "\<forall>j. i + 1 \<le> j \<and> j < n \<longrightarrow>
           w ! j = (if sint (parent ! j) = - 1 then local ! j
                    else mul (local ! j) (w ! nat (sint (parent ! j))))"
      by blast
    from w(3) li have wi: "w ! i = mul (local ! i) (mt ! ?p)" by simp
    from w(3) have old: "\<forall>j<i. w ! j = mt ! j" by simp
    with pi have wp: "w ! ?p = mt ! ?p" by blast
    have "\<forall>j. i \<le> j \<and> j < n \<longrightarrow>
           w ! j = (if sint (parent ! j) = - 1 then local ! j
                    else mul (local ! j) (w ! nat (sint (parent ! j))))"
    proof (intro allI impI)
      fix j assume j: "i \<le> j \<and> j < n"
      show "w ! j = (if sint (parent ! j) = - 1 then local ! j
                    else mul (local ! j) (w ! nat (sint (parent ! j))))"
      proof (cases "j = i")
        case True
        with wi wp False show ?thesis by simp
      next
        case False
        with j have "i + 1 \<le> j \<and> j < n" by simp
        with w(4) show ?thesis by blast
      qed
    qed
    with step w(1,2) old show ?thesis by auto
  qed
qed

section \<open>Composing the mesh tree's transforms\<close>

text \<open>
  Claim C1. For a mesh tree (local transforms and parent indices of \<open>num_meshes\<close> nodes, each
  parent index \<open>-1\<close> or an index below the node's own), the decoder computes the world
  transforms in one ascending pass: \<open>world[i] = local[i]\<close> when \<open>parent_idx[i] = -1\<close>, and
  \<open>world[i] = local[i] * world[parent_idx[i]]\<close> otherwise, the local transform on the left.
  Here \<open>local\<close> and \<open>parent\<close> are what the image holds at the transform array and in the
  tree nodes; \<open>mul\<close> is the matrix product.
\<close>

theorem world_transforms_composed:
  assumes "\<forall>j<n. ld_matrix buf (transform_matrices + 64 * j) = Inr (local ! j)"
    and "\<forall>j<n. ld_s8 buf (tree_nodes + 96 * j + 80) = Inr (parent ! j)"
    and "\<forall>j<n. sint (parent ! j) = - 1 \<or> (0 \<le> sint (parent ! j) \<and> sint (parent ! j) < int j)"
    and "length modelTransforms = n"
  shows "\<exists>world.
      transform_loop mul ld_matrix buf tree_nodes transform_matrices n 0 modelTransforms = Inr world \<and>
      length world = n \<and>
      (\<forall>i<n. world ! i = (if sint (parent ! i) = - 1 then local ! i
                           else mul (local ! i) (world ! nat (sint (parent ! i)))))"
  using transform_loop_inv [where ld_matrix = ld_matrix and buf = buf and n = n
      and tm = transform_matrices and local = local and tree = tree_nodes and parent = parent
      and i = 0 and k = n and mt = modelTransforms and mul = mul, OF assms(1-3)] assms(4)
  by auto

lemma tree_image_reads:
  "probe_matrix tree_image (0 + 64 * 0) = Inr ([[5], [6]] ! 0)"
  "probe_matrix tree_image (0 + 64 * 1) = Inr ([[5], [6]] ! 1)"
  "ld_s8 tree_image (128 + 96 * 0 + 80) = Inr ([- 1, 0] ! 0)"
  "ld_s8 tree_image (128 + 96 * 1 + 80) = Inr ([- 1, 0] ! 1)"
  by code_simp+

theorem world_transforms_composed_witness:
  "probe_matrix tree_image (0 + 64 * 0) = Inr ([[5], [6]] ! 0) \<and>
   probe_matrix tree_image (0 + 64 * 1) = Inr ([[5], [6]] ! 1) \<and>
   ld_s8 tree_image (128 + 96 * 0 + 80) = Inr ([- 1, 0] ! 0) \<and>
   ld_s8 tree_image (128 + 96 * 1 + 80) = Inr ([- 1, 0] ! 1) \<and>
   sint ([- 1, 0 :: 8 word] ! 0) = - 1 \<and>
   0 \<le> sint ([- 1, 0 :: 8 word] ! 1) \<and> sint ([- 1, 0 :: 8 word] ! 1) < int 1 \<and>
   length [[], [] :: nat list] = 2 \<and>
   (\<exists>world.
      transform_loop (@) probe_matrix tree_image 128 0 2 0 [[], []] = Inr world \<and>
      length world = 2 \<and> world ! 0 = [5] \<and> world ! 1 = [6] @ world ! 0)"
proof -
  have a: "\<forall>j<2. probe_matrix tree_image (0 + 64 * j) = Inr ([[5], [6]] ! j)"
    using tree_image_reads(1,2) by (simp add: less_2_cases_iff)
  have b: "\<forall>j<2. ld_s8 tree_image (128 + 96 * j + 80) = Inr ([- 1, 0] ! j)"
    using tree_image_reads(3,4) by (simp add: less_2_cases_iff)
  have c: "\<forall>j<2. sint ([- 1, 0 :: 8 word] ! j) = - 1 \<or>
      (0 \<le> sint ([- 1, 0 :: 8 word] ! j) \<and> sint ([- 1, 0 :: 8 word] ! j) < int j)"
    by (simp add: less_2_cases_iff)
  have d: "length [[], [] :: nat list] = 2" by simp
  from world_transforms_composed [where ld_matrix = probe_matrix and buf = tree_image
      and n = 2 and transform_matrices = 0 and local = "[[5], [6]]" and tree_nodes = 128
      and parent = "[- 1, 0]" and modelTransforms = "[[], []]" and mul = "(@)", OF a b c d]
  obtain world where
    w: "transform_loop (@) probe_matrix tree_image 128 0 2 0 [[], []] = Inr world"
      "length world = 2"
      "\<forall>i<2. world ! i = (if sint ([- 1, 0 :: 8 word] ! i) = - 1 then [[5], [6]] ! i
                           else [[5], [6]] ! i @ world ! nat (sint ([- 1, 0 :: 8 word] ! i)))"
    by blast
  from w(3) have "world ! 0 = [5]" "world ! 1 = [6] @ world ! 0"
    by (simp_all add: less_2_cases_iff)
  with w(1,2) tree_image_reads d show ?thesis by simp
qed

lemma walk_calls_append:
  "walk_calls fuel buf body (xs @ ys) st =
     ebind (walk_calls fuel buf body xs st) (walk_calls fuel buf body ys)"
proof (induction xs arbitrary: st)
  case Nil
  then show ?case by simp
next
  case (Cons x xs)
  obtain a b where x: "x = (a, b)" by (cases x)
  show ?case
    unfolding x by (cases "hgp_processMesh fuel buf body a b st") (simp_all add: Cons.IH)
qed

lemma ld_u32_at: "p + 4 \<le> length buf \<Longrightarrow> ld_u32 buf p = Inr (u32_at buf p)"
  by (simp add: ld_u32_def u32_at_def)

lemma per_mesh_loop_calls:
  assumes "p + 4 * n \<le> length buf" "length world = n"
  shows "n - k = d \<Longrightarrow> k \<le> n \<Longrightarrow>
    per_mesh_loop fuel buf body p world n k st =
      walk_calls fuel buf body (map (\<lambda>k. (u32_at buf (p + 4 * k), world ! k)) [k..<n]) st"
proof (induction d arbitrary: k st)
  case 0
  then have "k = n" by simp
  then show ?case by (subst per_mesh_loop.simps) simp
next
  case (Suc d)
  then have lt: "k < n" by simp
  then have rd: "ld_u32 buf (p + 4 * k) = Inr (u32_at buf (p + 4 * k))"
    using assms(1) by (intro ld_u32_at) simp
  have vg: "vec_get world (int k) = Inr (world ! k)"
    using lt assms(2) by (simp add: vec_simps)
  have "\<And>st'. per_mesh_loop fuel buf body p world n (Suc k) st' =
      walk_calls fuel buf body (map (\<lambda>k. (u32_at buf (p + 4 * k), world ! k)) [Suc k..<n]) st'"
    using Suc.prems lt by (intro Suc.IH) simp_all
  then have ih: "per_mesh_loop fuel buf body p world n (Suc k) =
      walk_calls fuel buf body (map (\<lambda>k. (u32_at buf (p + 4 * k), world ! k)) [Suc k..<n])"
    by (intro ext)
  have e: "[k..<n] = k # [Suc k..<n]" using lt by (simp add: upt_conv_Cons)
  show ?case
    by (subst per_mesh_loop.simps) (simp add: lt rd vg ih e)
qed

lemma slot_loop_calls:
  assumes rng: "slot_tables_in_range buf body n lh"
    and sm: "ld_matrix buf sp = Inr smat"
    and w: "length world = n" "0 < n"
  shows "4 - j = d \<Longrightarrow> j \<le> 4 \<Longrightarrow>
    slot_loop fuel mul ld_matrix buf body lh sp world n j st =
      walk_calls fuel buf body
        (concat (map (slot_calls mul smat buf body world n lh) [j..<4])) st"
proof (induction d arbitrary: j st)
  case 0
  then have "j = 4" by simp
  then show ?case by (subst slot_loop.simps) simp
next
  case (Suc d)
  then have lt: "j < 4" by simp
  let ?slot = "u32_at buf (lh + 4 + 4 * j)"
  have rd: "ld_u32 buf (lh + 4 + 4 * j) = Inr ?slot"
    using rng lt by (intro ld_u32_at) (simp add: slot_tables_in_range_def)
  have "\<And>st'. slot_loop fuel mul ld_matrix buf body lh sp world n (Suc j) st' =
      walk_calls fuel buf body
        (concat (map (slot_calls mul smat buf body world n lh) [Suc j..<4])) st'"
    using Suc.prems lt by (intro Suc.IH) simp_all
  then have ih: "slot_loop fuel mul ld_matrix buf body lh sp world n (Suc j) =
      walk_calls fuel buf body
        (concat (map (slot_calls mul smat buf body world n lh) [Suc j..<4]))"
    by (intro ext)
  have e: "[j..<4] = j # [Suc j..<4]" using lt by (simp add: upt_conv_Cons)
  show ?case
  proof (cases "?slot = 0")
    case True
    then show ?thesis
      by (subst slot_loop.simps) (simp add: lt rd ih e slot_calls_def)
  next
    case nz: False
    show ?thesis
    proof (cases "even j")
      case True
      with lt have "j = 0 \<or> j = 2" by presburger
      with rng nz have "OFFSET body ?slot + 4 * n \<le> length buf"
        by (auto simp: slot_tables_in_range_def Let_def)
      from per_mesh_loop_calls [OF this w(1), of 0 n fuel body st]
      have pm: "per_mesh_loop fuel buf body (OFFSET body ?slot) world n 0 st =
          walk_calls fuel buf body
            (map (\<lambda>k. (u32_at buf (OFFSET body ?slot + 4 * k), world ! k)) [0..<n]) st"
        by simp
      from True have m: "j mod 2 = 0" by presburger
      show ?thesis
        by (subst slot_loop.simps)
           (simp add: lt rd ih e slot_calls_def Let_def nz True m pm walk_calls_append)
    next
      case False
      then have m: "j mod 2 \<noteq> 0" by presburger
      have vg: "vec_get world 0 = Inr (world ! 0)"
        using w by (simp add: vec_get_def)
      show ?thesis
        by (subst slot_loop.simps)
           (simp add: lt rd ih e slot_calls_def Let_def nz False m sm vg)
    qed
  qed
qed

lemma layer_loop_calls:
  assumes rng: "layer_tables_in_range buf body n lhs nl"
    and sm: "ld_matrix buf sp = Inr smat"
    and w: "length world = n" "0 < n"
  shows "nl - i = d \<Longrightarrow> i \<le> nl \<Longrightarrow>
    layer_loop fuel mul ld_matrix buf body lhs sp world n nl i st =
      walk_calls fuel buf body
        (concat (map (\<lambda>i. concat (map (slot_calls mul smat buf body world n (lhs + 20 * i))
                                       [0..<4]))
                   (filter (\<lambda>i. i = 0 \<or> i = 2) [i..<nl]))) st"
proof (induction d arbitrary: i st)
  case 0
  then have "i = nl" by simp
  then show ?case by (subst layer_loop.simps) simp
next
  case (Suc d)
  then have lt: "i < nl" by simp
  have "\<And>st'. layer_loop fuel mul ld_matrix buf body lhs sp world n nl (Suc i) st' =
      walk_calls fuel buf body
        (concat (map (\<lambda>i. concat (map (slot_calls mul smat buf body world n (lhs + 20 * i))
                                       [0..<4]))
                   (filter (\<lambda>i. i = 0 \<or> i = 2) [Suc i..<nl]))) st'"
    using Suc.prems lt by (intro Suc.IH) simp_all
  then have ih: "layer_loop fuel mul ld_matrix buf body lhs sp world n nl (Suc i) =
      walk_calls fuel buf body
        (concat (map (\<lambda>i. concat (map (slot_calls mul smat buf body world n (lhs + 20 * i))
                                       [0..<4]))
                   (filter (\<lambda>i. i = 0 \<or> i = 2) [Suc i..<nl])))"
    by (intro ext)
  have e: "[i..<nl] = i # [Suc i..<nl]" using lt by (simp add: upt_conv_Cons)
  show ?case
  proof (cases "i = 0 \<or> i = 2")
    case False
    then show ?thesis
      by (subst layer_loop.simps) (simp add: lt ih e)
  next
    case True
    with lt have "i \<in> set (filter (\<lambda>i. i = 0 \<or> i = 2) [0..<nl])" by simp
    with rng have "slot_tables_in_range buf body n (lhs + 20 * i)"
      unfolding layer_tables_in_range_def list_all_iff by blast
    from slot_loop_calls [where ld_matrix = ld_matrix and buf = buf and sp = sp
        and smat = smat and j = 0 and d = 4 and fuel = fuel and mul = mul and st = st,
        OF this sm w]
    have sl: "slot_loop fuel mul ld_matrix buf body (lhs + 20 * i) sp world n 0 st =
        walk_calls fuel buf body
          (concat (map (slot_calls mul smat buf body world n (lhs + 20 * i)) [0..<4])) st"
      by simp
    from True show ?thesis
      by (subst layer_loop.simps) (auto simp add: lt ih e sl walk_calls_append)
  qed
qed

section \<open>The layers the assembler walks\<close>

text \<open>
  Claim C7. The assembler walks layer indices 0 and 2 only (those below \<open>num_layers\<close>), and
  in a walked layer each of the 4 slots with a non-zero offset: an even slot is an array of
  \<open>num_meshes\<close> mesh-header offsets, and the mesh walker runs once per mesh index \<open>k\<close> with
  the world transform of mesh \<open>k\<close>; an odd slot runs the mesh walker once, on the slot's own
  offset, with the first static transform times the world transform of mesh 0. The nested
  loops of the constructor are the mesh walker run over \<open>assembler_calls\<close>, in that order,
  when the layer headers and the per-mesh arrays lie inside the image, the first static
  transform can be read and there is at least one mesh.
\<close>

theorem assembler_walks_layers_0_and_2:
  assumes "layer_tables_in_range buf body num_meshes layer_headers num_layers"
    and "ld_matrix buf static_transform_matrices = Inr smat"
    and "length modelTransforms = num_meshes"
    and "0 < num_meshes"
  shows "layer_loop fuel mul ld_matrix buf body layer_headers static_transform_matrices
           modelTransforms num_meshes num_layers 0 st =
         walk_calls fuel buf body
           (assembler_calls mul smat buf body modelTransforms num_meshes layer_headers num_layers)
           st"
  using layer_loop_calls [where ld_matrix = ld_matrix and buf = buf
      and sp = static_transform_matrices and smat = smat and i = 0 and d = num_layers
      and fuel = fuel and mul = mul and st = st, OF assms]
  by (simp add: assembler_calls_def)

lemma layer_image_tables: "layer_tables_in_range layer_image 48 2 148 1"
  by code_simp

lemma layer_image_static: "probe_matrix layer_image 168 = Inr [9]"
  by code_simp

lemma layer_image_calls:
  "assembler_calls (@) [9 :: nat] layer_image 48 [[1], [2]] 2 148 1 =
     [(0x18, [1]), (0, [2]), (0x18, [9, 1])]"
  by code_simp

lemma layer_image_walk:
  "walk_calls 5 layer_image 48 [(0x18, [1]), (0, [2]), (0x18, [9, 1])] st1 =
     Inr \<lparr>model_chunks =
            [\<lparr>vertex_buffer_idx = 0, material_idx = 7, primitive_type = 4, num_elements = 3,
              transformation = [1], element_buffer = [0, 1, 2]\<rparr>,
             \<lparr>vertex_buffer_idx = 0, material_idx = 7, primitive_type = 4, num_elements = 3,
              transformation = [9, 1], element_buffer = [0, 1, 2]\<rparr>],
          vertexBuffers = [\<lparr>vb_size = 0, vb_data = [], stride = 36\<rparr>],
          stderr_log = []\<rparr>"
  by code_simp

theorem assembler_walks_layers_0_and_2_witness:
  "layer_tables_in_range layer_image 48 2 148 1 \<and>
   probe_matrix layer_image 168 = Inr [9] \<and>
   length [[1], [2 :: nat]] = 2 \<and> (0 :: nat) < 2 \<and>
   assembler_calls (@) [9 :: nat] layer_image 48 [[1], [2]] 2 148 1 =
     [(0x18, [1]), (0, [2]), (0x18, [9, 1])] \<and>
   layer_loop 5 (@) probe_matrix layer_image 48 148 168 [[1], [2]] 2 1 0 st1 =
     Inr \<lparr>model_chunks =
            [\<lparr>vertex_buffer_idx = 0, material_idx = 7, primitive_type = 4, num_elements = 3,
              transformation = [1], element_buffer = [0, 1, 2]\<rparr>,
             \<lparr>vertex_buffer_idx = 0, material_idx = 7, primitive_type = 4, num_elements = 3,
              transformation = [9, 1], element_buffer = [0, 1, 2]\<rparr>],
          vertexBuffers = [\<lparr>vb_size = 0, vb_data = [], stride = 36\<rparr>],
          stderr_log = []\<rparr>"
proof -
  have l: "length [[1], [2 :: nat]] = 2" "(0 :: nat) < 2" by simp_all
  note t = assembler_walks_layers_0_and_2 [where ld_matrix = probe_matrix and buf = layer_image
      and static_transform_matrices = 168 and smat = "[9 :: nat]" and fuel = 5 and mul = "(@)"
      and st = st1, OF layer_image_tables layer_image_static l]
  show ?thesis
    using t layer_image_tables layer_image_static l
    by (simp only: layer_image_calls layer_image_walk simp_thms)
qed










section \<open>The decode entry point\<close>












section \<open>Reads past the end\<close>



lemma readUint32_cases:
  "readUint32 s = Inl StreamBounds \<or>
   (\<exists>v. readUint32 s = Inr (v, s\<lparr>stream_pos := stream_pos s + 4\<rparr>) \<and>
        stream_pos s + 4 \<le> length (stream_data s))"
  by (simp add: readUint32_def Let_def)



















end
